theory Spec2Isabelle
  imports Complex_Main "HOL-Library.Word" "HOL-Library.Log_Nat"
begin

section \<open>Constants\<close>

text \<open>The constants module: fee scale, fee ceiling, basis points and the sqrt-price bounds.\<close>

definition SCALE_OFFSET :: nat where
  "SCALE_OFFSET = 64"

definition BASIS_POINT_MAX :: int where
  "BASIS_POINT_MAX = 10000"

definition MAX_FEE_NUMERATOR :: int where
  "MAX_FEE_NUMERATOR = 500000000"

definition FEE_DENOMINATOR :: int where
  "FEE_DENOMINATOR = 1000000000"

definition MIN_SQRT_PRICE :: int where
  "MIN_SQRT_PRICE = 4295048016"

definition MAX_SQRT_PRICE :: int where
  "MAX_SQRT_PRICE = 79226673521066979257578248091"

text \<open>
  Modelled from the spec: \<open>LIQUIDITY_SCALE\<close> is imported by the utilities from the constants
  module, whose source does not declare it. The spec calls it "a fixed \<open>LIQUIDITY_SCALE\<close>
  shift"; the comment above \<open>getUnClaimReward\<close> gives the shift as
  \<open>(totalLiquidity * feePerTokenStore) >> 128\<close>.
\<close>

definition LIQUIDITY_SCALE :: nat where
  "LIQUIDITY_SCALE = 128"


section \<open>Library values: BN, JavaScript numbers, Decimal\<close>

text \<open>
  Exceptions of the source are values: a failed \<open>assert\<close> inside bn.js, the
  \<open>invariant\<close> call of the fetchers, and the TypeError of a property read on
  \<open>undefined\<close>.
\<close>

datatype error = AssertionFailed | InvariantViolation | TypeError

type_synonym byte = "8 word"

subsection \<open>BN: unbounded signed integers\<close>

text \<open>
  A \<open>BN\<close> is an arbitrary-precision signed integer, modelled as \<open>int\<close>. \<open>add\<close>,
  \<open>sub\<close> and \<open>mul\<close> return a fresh value and leave the receiver as it was; comparisons
  between two \<open>BN\<close> values (\<open>lt\<close>, \<open>BN.min\<close>) are the numeric ones.
\<close>

definition BN_add :: "int \<Rightarrow> int \<Rightarrow> int" where
  "BN_add a b = a + b"

definition BN_sub :: "int \<Rightarrow> int \<Rightarrow> int" where
  "BN_sub a b = a - b"

definition BN_mul :: "int \<Rightarrow> int \<Rightarrow> int" where
  "BN_mul a b = a * b"

text \<open>\<open>div\<close> asserts a non-zero divisor and truncates towards zero.\<close>

definition BN_div :: "int \<Rightarrow> int \<Rightarrow> error + int" where
  "BN_div a b =
     (if b = 0 then Inl AssertionFailed
      else if (a < 0) = (b < 0) then Inr (\<bar>a\<bar> div \<bar>b\<bar>)
      else Inr (- (\<bar>a\<bar> div \<bar>b\<bar>)))"

text \<open>\<open>shrn\<close> asserts a non-negative receiver and drops the low bits.\<close>

definition BN_shrn :: "int \<Rightarrow> nat \<Rightarrow> error + int" where
  "BN_shrn a n = (if a < 0 then Inl AssertionFailed else Inr (a div 2 ^ n))"

text \<open>
  \<open>a.gt(n)\<close> where \<open>n\<close> is a JavaScript number and not a \<open>BN\<close>. \<open>gt\<close> is
  \<open>cmp(n) === 1\<close>, and \<open>cmp\<close> starts with
  \<open>if (this.negative !== 0 && num.negative === 0) return -1;
  if (this.negative === 0 && num.negative !== 0) return 1;\<close>.
  A number has no property \<open>negative\<close>, and \<open>undefined !== 0\<close>: for a non-negative
  receiver the answer is 1 whatever the number is. For a negative receiver both tests fail
  and the comparison of the words reads \<open>num.words[i]\<close> on \<open>undefined\<close>, a TypeError.
\<close>

definition BN_gt_number :: "int \<Rightarrow> int \<Rightarrow> error + bool" where
  "BN_gt_number a n = (if 0 \<le> a then Inr True else Inl TypeError)"

text \<open>\<open>new BN(buffer)\<close> reads the bytes as one big-endian unsigned integer.\<close>

definition BN_of_bytes :: "byte list \<Rightarrow> int" where
  "BN_of_bytes bs = foldl (\<lambda>acc b. acc * 256 + uint b) 0 bs"

subsection \<open>JavaScript numbers\<close>

text \<open>
  A JavaScript number is an IEEE-754 binary64 value: a finite rational with a 53-bit
  significand, or one of the three special values. Signed zero is not distinguished.
  The same shape serves for the values of decimal.js, which has the same special values.
\<close>

datatype number = Fin rat | PInf | NInf | NaN

text \<open>\<open>floor_log b q\<close> is the exponent \<open>e\<close> with \<open>b^e \<le> |q| < b^(e+1)\<close>, for \<open>q \<noteq> 0\<close>.\<close>

definition floor_log :: "nat \<Rightarrow> rat \<Rightarrow> int" where
  "floor_log b q =
     (let (n, d) = quotient_of \<bar>q\<bar>;
          e0 = int (floorlog b (nat n)) - int (floorlog b (nat d))
      in if of_nat b powi e0 \<le> \<bar>q\<bar> then e0 else e0 - 1)"

definition round_half_even :: "rat \<Rightarrow> int" where
  "round_half_even m =
     (let f = \<lfloor>m\<rfloor>; r = m - of_int f
      in if r < 1 / 2 then f
         else if 1 / 2 < r then f + 1
         else if even f then f else f + 1)"

text \<open>
  Rounding of an exact result to binary64: round to nearest, ties to even, on a 53-bit
  significand \<open>m\<close> at exponent \<open>e\<close>, with the spacing fixed below \<open>2^-1022\<close>
  (subnormals). The result overflows to an infinity when it reaches \<open>2^1024\<close>, that is
  when \<open>e\<close> exceeds 1023 or the significand rounds up to \<open>2^53\<close> at \<open>e = 1023\<close>.
\<close>

definition double_of_rat :: "rat \<Rightarrow> number" where
  "double_of_rat q =
     (if q = 0 then Fin 0
      else let e = max (floor_log 2 q) (- 1022);
               ulp = 2 powi (e - 52);
               m = round_half_even (\<bar>q\<bar> / ulp)
           in if 1024 \<le> e \<or> (e = 1023 \<and> m = 2 ^ 53) then (if 0 < q then PInf else NInf)
              else Fin ((if 0 < q then 1 else - 1) * of_int m * ulp))"

text \<open>The arithmetic the source uses on numbers: a sum of finite numbers, and a division
  and a multiplication by a positive finite constant.\<close>

definition js_add :: "rat \<Rightarrow> rat \<Rightarrow> number" where
  "js_add a b = double_of_rat (a + b)"

definition js_sub :: "rat \<Rightarrow> rat \<Rightarrow> number" where
  "js_sub a b = double_of_rat (a - b)"

fun js_div_const :: "number \<Rightarrow> rat \<Rightarrow> number" where
  "js_div_const (Fin a) c = double_of_rat (a / c)"
| "js_div_const x c = x"

fun js_mul_const :: "number \<Rightarrow> rat \<Rightarrow> number" where
  "js_mul_const (Fin a) c = double_of_rat (a * c)"
| "js_mul_const x c = x"

text \<open>
  \<open>new BN(number)\<close>: the sign is split off, magnitudes below \<open>2^53\<close> are cut to their
  integer part by the bitwise masks of the constructor, anything else (also an infinity or
  NaN) fails the constructor's assertion.
\<close>

fun BN_of_number :: "number \<Rightarrow> error + int" where
  "BN_of_number (Fin x) =
     (if \<bar>x\<bar> < 2 ^ 53 then Inr (if x < 0 then - \<lfloor>- x\<rfloor> else \<lfloor>x\<rfloor>)
      else Inl AssertionFailed)"
| "BN_of_number x = Inl AssertionFailed"

subsection \<open>Decimal\<close>

text \<open>
  decimal.js rounds every arithmetic result to \<open>precision\<close> significant digits (20 unless
  configured), half away from zero; a division by zero gives NaN for \<open>0 / 0\<close> and an
  infinity with the sign of the dividend otherwise (the divisor parsed from "0" is \<open>+0\<close>).
\<close>

definition DECIMAL_PRECISION :: nat where
  "DECIMAL_PRECISION = 20"

definition round_sig :: "rat \<Rightarrow> rat" where
  "round_sig q =
     (if q = 0 then 0
      else let e = floor_log 10 q;
               unit = 10 powi (e - (int DECIMAL_PRECISION - 1));
               m = of_int \<lfloor>\<bar>q\<bar> / unit + 1 / 2\<rfloor> * unit
           in if q < 0 then - m else m)"

text \<open>\<open>new Decimal(bn.toString())\<close> is exact; \<open>x.div(y)\<close> on two finite values.\<close>

definition Decimal_div :: "rat \<Rightarrow> rat \<Rightarrow> number" where
  "Decimal_div a b =
     (if b = 0 then (if a = 0 then NaN else if 0 < a then PInf else NInf)
      else Fin (round_sig (a / b)))"

text \<open>\<open>x.mul(c)\<close> for a positive finite constant \<open>c\<close>: special values stay as they are.\<close>

fun Decimal_mul_const :: "number \<Rightarrow> rat \<Rightarrow> number" where
  "Decimal_mul_const (Fin a) c = Fin (round_sig (a * c))"
| "Decimal_mul_const x c = x"

text \<open>
  \<open>Decimal.sqrt\<close> is correctly rounded: the result is the root computed to unlimited
  precision and then rounded to \<open>precision\<close> significant digits. \<open>floor_sqrt\<close> is the
  integer part of the root of a natural number; with the unit \<open>u\<close> of the last kept digit
  of the root, the rounded root of \<open>x\<close> is \<open>floor(sqrt(x) / u + 1/2) * u\<close>, and
  \<open>floor(sqrt(x) / u + 1/2) = (floor_sqrt(floor(4 * x / u^2)) + 1) div 2\<close>. The root of a
  negative number is NaN.
\<close>

function floor_sqrt :: "nat \<Rightarrow> nat" where
  "floor_sqrt n =
     (if n = 0 then 0
      else let r = 2 * floor_sqrt (n div 4)
           in if (r + 1) * (r + 1) \<le> n then r + 1 else r)"
  by pat_completeness auto
termination
  by (relation "measure id") auto

declare floor_sqrt.simps [simp del]

definition sqrt_sig :: "rat \<Rightarrow> rat" where
  "sqrt_sig x =
     (if x \<le> 0 then 0
      else let e = floor_log 10 x div 2;
               unit = 10 powi (e - (int DECIMAL_PRECISION - 1));
               t = floor_sqrt (nat \<lfloor>4 * x / (unit * unit)\<rfloor>)
           in of_nat ((t + 1) div 2) * unit)"

fun Decimal_sqrt :: "number \<Rightarrow> number" where
  "Decimal_sqrt (Fin a) = (if a < 0 then NaN else Fin (sqrt_sig a))"
| "Decimal_sqrt PInf = PInf"
| "Decimal_sqrt x = NaN"

text \<open>\<open>Decimal.pow(2, n)\<close> for the two exponents the sources use, 64 and 128: the power is
  computed exactly and rounded to \<open>precision\<close> digits.\<close>

definition Decimal_pow2 :: "nat \<Rightarrow> rat" where
  "Decimal_pow2 n = round_sig (2 ^ n)"

fun Decimal_floor :: "number \<Rightarrow> number" where
  "Decimal_floor (Fin a) = Fin (of_int \<lfloor>a\<rfloor>)"
| "Decimal_floor x = x"

text \<open>
  \<open>new BN(x.toFixed())\<close> for an integral \<open>x\<close>: the digits are read back exactly. The
  strings of a non-finite value ("NaN", "Infinity") fail the digit assertion of the parser.
\<close>

fun BN_of_Decimal :: "number \<Rightarrow> error + int" where
  "BN_of_Decimal (Fin a) = Inr \<lfloor>a\<rfloor>"
| "BN_of_Decimal x = Inl AssertionFailed"

text \<open>
  \<open>new Decimal(10 ** d)\<close>: the JavaScript number \<open>10 ** d\<close> is converted through its
  shortest decimal string. For the differences of two token decimals (each at most 255) the
  power is a normal binary64 value, exact for \<open>0 \<le> d \<le> 22\<close> and otherwise the binary64
  value nearest to \<open>10^d\<close>, whose shortest string reads back as \<open>10^d\<close>.
\<close>

definition Decimal_of_pow10 :: "int \<Rightarrow> rat" where
  "Decimal_of_pow10 d = 10 powi d"

text \<open>\<open>toNumber\<close> goes through the decimal string to the nearest binary64 value.\<close>

fun Decimal_toNumber :: "number \<Rightarrow> number" where
  "Decimal_toNumber (Fin a) = double_of_rat a"
| "Decimal_toNumber x = x"


section \<open>Utilities: slippage, price impact, unclaimed fees and rewards\<close>

subsection \<open>Slippage\<close>

text \<open>
  \<open>rate\<close> is a finite JavaScript number. The factor
  \<open>((100 + rate) / 100) * BASIS_POINT_MAX\<close> is computed in binary64, one rounding per
  operation, and then handed to \<open>new BN\<close>.
\<close>

definition getMaxAmountWithSlippage :: "int \<Rightarrow> rat \<Rightarrow> error + int" where
  "getMaxAmountWithSlippage amount rate =
     (let slippage = js_mul_const (js_div_const (js_add 100 rate) 100) (of_int BASIS_POINT_MAX)
      in case BN_of_number slippage of
           Inl e \<Rightarrow> Inl e
         | Inr s \<Rightarrow> BN_div (BN_mul amount s) BASIS_POINT_MAX)"

definition getMinAmountWithSlippage :: "int \<Rightarrow> rat \<Rightarrow> error + int" where
  "getMinAmountWithSlippage amount rate =
     (let slippage = js_mul_const (js_div_const (js_sub 100 rate) 100) (of_int BASIS_POINT_MAX)
      in case BN_of_number slippage of
           Inl e \<Rightarrow> Inl e
         | Inr s \<Rightarrow> BN_div (BN_mul amount s) BASIS_POINT_MAX)"

subsection \<open>Price impact\<close>

definition getPriceImpact :: "int \<Rightarrow> int \<Rightarrow> number" where
  "getPriceImpact actual idealAmount =
     (let diff = BN_sub idealAmount actual
      in Decimal_toNumber
           (Decimal_mul_const (Decimal_div (of_int diff) (of_int idealAmount)) 100))"

subsection \<open>Price conversions\<close>

text \<open>
  \<open>getPriceFromSqrtPrice\<close> returns the decimal string of
  \<open>sqrtPrice * sqrtPrice * 10^(tokenADecimal - tokenBDecimal) / 2^128\<close>, each operation
  rounded by decimal.js; the model returns the value the string denotes.
\<close>

definition getPriceFromSqrtPrice :: "int \<Rightarrow> int \<Rightarrow> int \<Rightarrow> number" where
  "getPriceFromSqrtPrice sqrtPriceQ64 tokenADecimal tokenBDecimal =
     (let decimalSqrtPrice = of_int sqrtPriceQ64
      in case Decimal_mul_const
                (Decimal_mul_const (Fin decimalSqrtPrice) decimalSqrtPrice)
                (Decimal_of_pow10 (tokenADecimal - tokenBDecimal)) of
           Fin scaled \<Rightarrow> Decimal_div scaled (Decimal_pow2 128)
         | x \<Rightarrow> x)"

text \<open>
  \<open>getSqrtPriceFromPrice\<close>: the price string is a finite decimal, read exactly. The
  quotient by the decimal scale, its square root and the product with \<open>Decimal.pow(2, 64)\<close>
  are each rounded by decimal.js before \<open>floor\<close> is applied.
\<close>

definition getSqrtPriceFromPrice :: "rat \<Rightarrow> int \<Rightarrow> int \<Rightarrow> error + int" where
  "getSqrtPriceFromPrice price tokenADecimal tokenBDecimal =
     (let decimalPrice = price;
          adjustedByDecimals =
            Decimal_div decimalPrice (Decimal_of_pow10 (tokenADecimal - tokenBDecimal));
          sqrtValue = Decimal_sqrt adjustedByDecimals;
          sqrtValueQ64 = Decimal_mul_const sqrtValue (Decimal_pow2 64)
      in BN_of_Decimal (Decimal_floor sqrtValueQ64))"

subsection \<open>Pool and position snapshots\<close>

text \<open>
  Modelled from the spec: the account types \<open>PoolState\<close> and \<open>PositionState\<close> are
  generated from the program's interface description, which is not among the sources. The
  records hold the fields the sources read, under the names the sources use, and the reward
  accumulators of the pool that the spec's reward formula speaks of. Unsigned on-chain
  integers are \<open>nat\<close>, the 256-bit accumulators and checkpoints are little-endian byte
  arrays (the sources reverse them before reading them as big-endian numbers), public keys
  are byte strings.
\<close>

type_synonym PublicKey = "byte list"

record DynamicFeeStruct =
  initialize :: nat
  volatilityAccumulator :: nat
  binStep :: nat
  variableFeeControl :: nat

record PoolFeesStruct =
  feeSchedulerMode :: nat
  cliffFeeNumerator :: nat
  numberOfPeriod :: nat
  reductionFactor :: nat
  periodFrequency :: nat
  dynamicFee :: DynamicFeeStruct

record RewardInfo =
  rewardPerTokenStored :: "byte list"

record PoolState =
  tokenAMint :: PublicKey
  tokenBMint :: PublicKey
  sqrtPrice :: nat
  liquidity :: nat
  activationType :: nat
  activationPoint :: nat
  poolFees :: PoolFeesStruct
  feeAPerLiquidity :: "byte list"
  feeBPerLiquidity :: "byte list"
  poolRewardInfos :: "RewardInfo list"

record UserRewardInfo =
  rewardPerTokenCheckpoint :: "byte list"
  rewardPendings :: nat
  totalClaimedRewards :: nat

record PositionState =
  unlockedLiquidity :: nat
  vestedLiquidity :: nat
  permanentLockedLiquidity :: nat
  feeAPerTokenCheckpoint :: "byte list"
  feeBPerTokenCheckpoint :: "byte list"
  feeAPending :: nat
  feeBPending :: nat
  rewardInfos :: "UserRewardInfo list"

subsection \<open>Unclaimed fees and rewards\<close>

record UnClaimReward =
  feeTokenA :: int
  feeTokenB :: int
  rewards :: "int list"

definition totalPositionLiquidity :: "PositionState \<Rightarrow> int" where
  "totalPositionLiquidity positionState =
     BN_add (BN_add (int (unlockedLiquidity positionState)) (int (vestedLiquidity positionState)))
            (int (permanentLockedLiquidity positionState))"

text \<open>\<open>new BN(Buffer.from(acc).reverse()).sub(new BN(Buffer.from(checkpoint).reverse()))\<close>\<close>

definition feeAPerTokenStored :: "PoolState \<Rightarrow> PositionState \<Rightarrow> int" where
  "feeAPerTokenStored poolState positionState =
     BN_sub (BN_of_bytes (rev (feeAPerLiquidity poolState)))
            (BN_of_bytes (rev (feeAPerTokenCheckpoint positionState)))"

definition feeBPerTokenStored :: "PoolState \<Rightarrow> PositionState \<Rightarrow> int" where
  "feeBPerTokenStored poolState positionState =
     BN_sub (BN_of_bytes (rev (feeBPerLiquidity poolState)))
            (BN_of_bytes (rev (feeBPerTokenCheckpoint positionState)))"

definition getUnClaimReward :: "PoolState \<Rightarrow> PositionState \<Rightarrow> error + UnClaimReward" where
  "getUnClaimReward poolState positionState =
     (case BN_shrn (BN_mul (totalPositionLiquidity positionState)
                           (feeAPerTokenStored poolState positionState)) LIQUIDITY_SCALE of
        Inl e \<Rightarrow> Inl e
      | Inr feeA \<Rightarrow>
     (case BN_shrn (BN_mul (totalPositionLiquidity positionState)
                           (feeBPerTokenStored poolState positionState)) LIQUIDITY_SCALE of
        Inl e \<Rightarrow> Inl e
      | Inr feeB \<Rightarrow>
          Inr \<lparr> feeTokenA = BN_add (int (feeAPending positionState)) feeA,
                feeTokenB = BN_add (int (feeBPending positionState)) feeB,
                rewards = (if length (rewardInfos positionState) > 0
                           then map (\<lambda>item. int (rewardPendings item)) (rewardInfos positionState)
                           else []) \<rparr>))"


section \<open>The client: quotes and liquidity sizing\<close>

subsection \<open>Collaborators of \<open>getQuote\<close>\<close>

text \<open>
  \<open>getQuote\<close> calls four helpers of the utilities, \<open>calculateSwap\<close>,
  \<open>getBaseFeeNumerator\<close>, \<open>getDynamicFeeNumerator\<close> and \<open>calculateFee\<close>, whose sources
  are not available. They are parameters of the model: what is proved of \<open>getQuote\<close>
  holds for every implementation of them. \<open>calculateFee\<close> returns the pair
  \<open>(actualAmount, lpFee)\<close>.
\<close>

record helpers =
  calculateSwap :: "int \<Rightarrow> int \<Rightarrow> int \<Rightarrow> bool \<Rightarrow> int"
  getBaseFeeNumerator :: "nat \<Rightarrow> int \<Rightarrow> int \<Rightarrow> int \<Rightarrow> int"
  getDynamicFeeNumerator :: "int \<Rightarrow> int \<Rightarrow> int \<Rightarrow> int"
  calculateFee :: "int \<Rightarrow> int \<Rightarrow> int \<times> int"

text \<open>
  What \<open>getQuote\<close> reads from outside its arguments: the wall clock (\<open>Date.now()\<close>, in
  milliseconds), the slot the connection reports, and the pool accounts the program client
  fetches (\<open>fetchNullable\<close>). The clock and the slot are JavaScript numbers that hold
  non-negative integers in the range \<open>new BN\<close> accepts.
\<close>

record world =
  dateNow :: nat
  getSlot :: nat
  poolAccounts :: "PublicKey \<Rightarrow> PoolState option"

record GetQuoteParams =
  pool :: PublicKey
  inAmount :: int
  inputTokenMint :: PublicKey

record Quote =
  actualAmount :: int
  totalFee :: int

subsection \<open>\<open>getQuote\<close>\<close>

definition fetchPoolState :: "world \<Rightarrow> PublicKey \<Rightarrow> error + PoolState" where
  "fetchPoolState w p =
     (case poolAccounts w p of None \<Rightarrow> Inl InvariantViolation | Some poolState \<Rightarrow> Inr poolState)"

text \<open>\<open>activationType ? Math.floor(Date.now() / 1000) : await connection.getSlot()\<close>\<close>

definition currentPoint :: "world \<Rightarrow> PoolState \<Rightarrow> nat" where
  "currentPoint w poolState =
     (if activationType poolState \<noteq> 0 then dateNow w div 1000 else getSlot w)"

text \<open>
  The constant \<open>period\<close> of \<open>getQuote\<close>: \<open>numberOfPeriod\<close> when the current point is
  before the activation point, otherwise the elapsed periods,
  \<open>(currentPoint - activationPoint) / periodFrequency\<close>, capped at \<open>numberOfPeriod\<close>.
\<close>

definition getPeriod :: "PoolState \<Rightarrow> nat \<Rightarrow> error + int" where
  "getPeriod poolState cp =
     (if int cp < int (activationPoint poolState)
      then Inr (int (numberOfPeriod (poolFees poolState)))
      else case BN_div (BN_sub (int cp) (int (activationPoint poolState)))
                       (int (periodFrequency (poolFees poolState))) of
             Inl e \<Rightarrow> Inl e
           | Inr q \<Rightarrow> Inr (min (int (numberOfPeriod (poolFees poolState))) q))"

text \<open>The variable \<open>feeNumerator\<close> as \<open>getBaseFeeNumerator\<close> initialises it.\<close>

definition feeNumerator :: "helpers \<Rightarrow> PoolFeesStruct \<Rightarrow> int \<Rightarrow> int" where
  "feeNumerator h fees period =
     getBaseFeeNumerator h (feeSchedulerMode fees) (int (cliffFeeNumerator fees)) period
       (int (reductionFactor fees))"

text \<open>
  The numerator handed to \<open>calculateFee\<close>. The statement
  \<open>feeNumerator.add(dynamicFeeNumberator)\<close> computes a sum and drops it: \<open>add\<close> does not
  change its receiver and the result is not assigned. The cap is then tested with
  \<open>feeNumerator.gt(MAX_FEE_NUMERATOR)\<close>, and \<open>MAX_FEE_NUMERATOR\<close> is a JavaScript
  number.
\<close>

definition tradeFeeNumerator :: "helpers \<Rightarrow> PoolFeesStruct \<Rightarrow> int \<Rightarrow> error + int" where
  "tradeFeeNumerator h fees period =
     (let dropped = (if initialize (dynamicFee fees) \<noteq> 0
                     then Some (BN_add (feeNumerator h fees period)
                            (getDynamicFeeNumerator h
                               (int (volatilityAccumulator (dynamicFee fees)))
                               (int (binStep (dynamicFee fees)))
                               (int (variableFeeControl (dynamicFee fees)))))
                     else None)
      in case BN_gt_number (feeNumerator h fees period) MAX_FEE_NUMERATOR of
           Inl e \<Rightarrow> Inl e
         | Inr isAbove \<Rightarrow>
             Inr (if isAbove then MAX_FEE_NUMERATOR else feeNumerator h fees period))"

definition getQuote :: "helpers \<Rightarrow> world \<Rightarrow> GetQuoteParams \<Rightarrow> error + Quote" where
  "getQuote h w params =
     (case fetchPoolState w (pool params) of
        Inl e \<Rightarrow> Inl e
      | Inr poolState \<Rightarrow>
          (let aToB = (tokenAMint poolState = inputTokenMint params);
               outAmount = calculateSwap h (inAmount params) (int (sqrtPrice poolState))
                             (int (liquidity poolState)) aToB
           in case getPeriod poolState (currentPoint w poolState) of
                Inl e \<Rightarrow> Inl e
              | Inr period \<Rightarrow>
                  (case tradeFeeNumerator h (poolFees poolState) period of
                     Inl e \<Rightarrow> Inl e
                   | Inr numerator \<Rightarrow>
                       (let (actual, lpFee) = calculateFee h outAmount numerator
                        in Inr \<lparr> actualAmount = actual, totalFee = lpFee \<rparr>))))"

subsection \<open>\<open>getLiquidityDelta\<close>\<close>

text \<open>
  \<open>async getLiquidityDelta(params: any): Promise<any> { // TODO }\<close>: the body is empty, so
  the promise resolves to \<open>undefined\<close> (\<open>None\<close>) whatever the parameters are.
\<close>

definition getLiquidityDelta :: "'a \<Rightarrow> int option" where
  "getLiquidityDelta params = None"


section \<open>The specification's formulas\<close>

subsection \<open>Accrual\<close>

text \<open>The unsigned number a little-endian byte array stores.\<close>

fun le_value :: "byte list \<Rightarrow> nat" where
  "le_value [] = 0"
| "le_value (b # bs) = unat b + 256 * le_value bs"

text \<open>\<open>positionTotalLiquidity = unlockedLiquidity + vestedLiquidity + permanentlyLockedLiquidity\<close>\<close>

definition positionTotalLiquidity :: "PositionState \<Rightarrow> nat" where
  "positionTotalLiquidity p =
     unlockedLiquidity p + vestedLiquidity p + permanentLockedLiquidity p"

text \<open>
  \<open>positionTotalLiquidity * (accumulator - checkpoint) >> LIQUIDITY_SCALE + pending\<close>, the
  checkpoint pattern of pending fees and of pending rewards.
\<close>

definition pendingFee_spec :: "nat \<Rightarrow> int \<Rightarrow> int \<Rightarrow> nat \<Rightarrow> int" where
  "pendingFee_spec L acc chk pending = (int L * (acc - chk)) div 2 ^ LIQUIDITY_SCALE + int pending"

definition pendingReward_spec :: "PoolState \<Rightarrow> PositionState \<Rightarrow> nat \<Rightarrow> int" where
  "pendingReward_spec poolState positionState i =
     pendingFee_spec (positionTotalLiquidity positionState)
       (int (le_value (rewardPerTokenStored (poolRewardInfos poolState ! i))))
       (int (le_value (rewardPerTokenCheckpoint (rewardInfos positionState ! i))))
       (rewardPendings (rewardInfos positionState ! i))"

text \<open>
  Modelled from the spec: the ledger program's difference of two stored accumulator values,
  "an unsigned wraparound-safe subtraction ... modular subtraction matching the ledger
  program's width". The width is that of the stored arrays, 32 bytes.
\<close>

definition ledger_wrapping_sub :: "nat \<Rightarrow> nat \<Rightarrow> nat" where
  "ledger_wrapping_sub acc chk = unat ((word_of_nat acc :: 256 word) - word_of_nat chk)"

subsection \<open>Slippage\<close>

text \<open>The linear basis-point adjustment, for a rate given as an exact decimal.\<close>

definition maxAmountWithSlippage_spec :: "int \<Rightarrow> rat \<Rightarrow> int" where
  "maxAmountWithSlippage_spec amount rate = \<lfloor>of_int amount * (10000 + 100 * rate) / 10000\<rfloor>"

definition minAmountWithSlippage_spec :: "int \<Rightarrow> rat \<Rightarrow> int" where
  "minAmountWithSlippage_spec amount rate = \<lfloor>of_int amount * (10000 - 100 * rate) / 10000\<rfloor>"

subsection \<open>Price conversion\<close>

text \<open>\<open>sqrtPrice = floor(sqrt(price / 10^(decimalsA-decimalsB)) * 2^64)\<close>\<close>

definition priceToSqrtPrice_spec :: "rat \<Rightarrow> int \<Rightarrow> int \<Rightarrow> int" where
  "priceToSqrtPrice_spec price decimalsA decimalsB =
     \<lfloor>sqrt (real_of_rat price / 10 powi (decimalsA - decimalsB)) * 2 ^ 64\<rfloor>"

text \<open>\<open>price = (sqrtPrice)^2 / 2^128 * 10^(decimalsA-decimalsB)\<close>\<close>

definition sqrtPriceToPrice_spec :: "int \<Rightarrow> int \<Rightarrow> int \<Rightarrow> rat" where
  "sqrtPriceToPrice_spec s decimalsA decimalsB =
     (of_int s) ^ 2 / 2 ^ 128 * 10 powi (decimalsA - decimalsB)"

subsection \<open>Fee scheduler, curve and fee split\<close>

text \<open>\<open>min(base + surcharge, MAX_FEE_NUMERATOR)\<close>\<close>

definition cappedFeeNumerator_spec :: "int \<Rightarrow> int \<Rightarrow> int" where
  "cappedFeeNumerator_spec base surcharge = min (base + surcharge) MAX_FEE_NUMERATOR"

text \<open>
  Modelled from the spec: \<open>getBaseFeeNumerator\<close> of the utilities, whose source is not
  available. Linear mode: \<open>max(cliffFeeNumerator - period * reductionFactor,
  floorFeeNumerator)\<close>; exponential mode:
  \<open>cliffFeeNumerator * (1 - reductionFactor/BASIS_POINT_MAX)^period\<close>, floored. The floor
  numerator is not among the arguments of the call and is a parameter here.
\<close>

definition spec_getBaseFeeNumerator :: "int \<Rightarrow> nat \<Rightarrow> int \<Rightarrow> int \<Rightarrow> int \<Rightarrow> int" where
  "spec_getBaseFeeNumerator floorFeeNumerator mode cliff period reduction =
     (if mode = 0 then max (cliff - period * reduction) floorFeeNumerator
      else \<lfloor>(of_int cliff :: rat)
              * (1 - of_int reduction / of_int BASIS_POINT_MAX) ^ nat period\<rfloor>)"

text \<open>
  Modelled from the spec: \<open>getDynamicFeeNumerator\<close> of the utilities, whose source is not
  available: \<open>variableFeeControl * (volatilityAccumulator * binStep)^2 /
  normalizationConstant\<close>. The spec does not give the constant; it is a parameter here.
\<close>

definition spec_getDynamicFeeNumerator :: "int \<Rightarrow> int \<Rightarrow> int \<Rightarrow> int \<Rightarrow> int" where
  "spec_getDynamicFeeNumerator normalizationConstant va bs vfc =
     vfc * (va * bs) ^ 2 div normalizationConstant"

text \<open>
  Modelled from the spec: \<open>calculateFee\<close> of the utilities, whose source is not available:
  \<open>fee = floor(grossOutput * feeNumerator / FEE_DENOMINATOR)\<close> and
  \<open>netOutput = grossOutput - fee\<close>.
\<close>

definition spec_calculateFee :: "int \<Rightarrow> int \<Rightarrow> int \<times> int" where
  "spec_calculateFee grossOutput numerator =
     (let fee = grossOutput * numerator div FEE_DENOMINATOR in (grossOutput - fee, fee))"

text \<open>
  Modelled from the spec: \<open>calculateSwap\<close> of the curve utilities, whose source is not
  available. With \<open>P\<close> and \<open>L\<close> the Q64.64 sqrt-price and liquidity read as fractions:
  A to B, \<open>P_new = 1 / (1/P + \<Delta>in/L)\<close> and \<open>\<Delta>out = L * (P - P_new)\<close>; B to A,
  \<open>P_new = P + \<Delta>in/L\<close> and \<open>\<Delta>out = L * (1/P - 1/P_new)\<close>; \<open>P_new\<close> is clamped to the
  price bounds and the amount owed to the trader is rounded down.
\<close>

definition spec_calculateSwap :: "int \<Rightarrow> int \<Rightarrow> int \<Rightarrow> bool \<Rightarrow> int" where
  "spec_calculateSwap amountIn sqrtPriceQ64 liquidityQ64 aToB =
     (let P = (of_int sqrtPriceQ64 :: rat) / 2 ^ 64;
          L = (of_int liquidityQ64 :: rat) / 2 ^ 64;
          lo = (of_int MIN_SQRT_PRICE :: rat) / 2 ^ 64;
          hi = (of_int MAX_SQRT_PRICE :: rat) / 2 ^ 64
      in if aToB
         then (let Pnew = max lo (min hi (1 / (1 / P + of_int amountIn / L)))
               in \<lfloor>L * (P - Pnew)\<rfloor>)
         else (let Pnew = max lo (min hi (P + of_int amountIn / L))
               in \<lfloor>L * (1 / P - 1 / Pnew)\<rfloor>))"

definition spec_helpers :: "int \<Rightarrow> int \<Rightarrow> helpers" where
  "spec_helpers floorFeeNumerator normalizationConstant =
     \<lparr> calculateSwap = spec_calculateSwap,
       getBaseFeeNumerator = spec_getBaseFeeNumerator floorFeeNumerator,
       getDynamicFeeNumerator = spec_getDynamicFeeNumerator normalizationConstant,
       calculateFee = spec_calculateFee \<rparr>"


section \<open>Example snapshots\<close>

text \<open>
  A pool and a position with 32-byte accumulators and checkpoints above which the fee
  accumulators have grown by \<open>4 * 2^128\<close> and \<open>5 * 2^128\<close>, one reward slot, and a total
  position liquidity of 10.
\<close>

definition example_pool :: PoolState where
  "example_pool =
     \<lparr> tokenAMint = replicate 32 1, tokenBMint = replicate 32 2,
       sqrtPrice = 2 ^ 64, liquidity = 10 ^ 12 * 2 ^ 64,
       activationType = 1, activationPoint = 1000,
       poolFees = \<lparr> feeSchedulerMode = 0, cliffFeeNumerator = 1000000, numberOfPeriod = 10,
                    reductionFactor = 2, periodFrequency = 10,
                    dynamicFee = \<lparr> initialize = 1, volatilityAccumulator = 100, binStep = 10,
                                   variableFeeControl = 1000 \<rparr> \<rparr>,
       feeAPerLiquidity = replicate 16 0 @ [7] @ replicate 15 0,
       feeBPerLiquidity = replicate 16 0 @ [9] @ replicate 15 0,
       poolRewardInfos = [\<lparr> rewardPerTokenStored = replicate 16 0 @ [1] @ replicate 15 0 \<rparr>] \<rparr>"

definition example_position :: PositionState where
  "example_position =
     \<lparr> unlockedLiquidity = 6, vestedLiquidity = 3, permanentLockedLiquidity = 1,
       feeAPerTokenCheckpoint = replicate 16 0 @ [3] @ replicate 15 0,
       feeBPerTokenCheckpoint = replicate 16 0 @ [4] @ replicate 15 0,
       feeAPending = 11, feeBPending = 12,
       rewardInfos = [\<lparr> rewardPerTokenCheckpoint = replicate 32 0, rewardPendings = 5,
                        totalClaimedRewards = 0 \<rparr>] \<rparr>"

text \<open>
  The same pair after the stored accumulator of token A has wrapped around \<open>2^256\<close>: the
  checkpoint is \<open>2^256 - 1\<close>, the accumulator has grown by 6 since and stores 5.
\<close>

definition wrapped_pool :: PoolState where
  "wrapped_pool = example_pool \<lparr> feeAPerLiquidity := [5] @ replicate 31 0 \<rparr>"

definition wrapped_position :: PositionState where
  "wrapped_position = example_position \<lparr> feeAPerTokenCheckpoint := replicate 32 255 \<rparr>"


text \<open>
  Three states of the outside world that hold the example pool under one address; the pool
  activates at the timestamp 1000. \<open>world_before\<close> reads the clock at 500 seconds,
  \<open>world_during\<close> at 1055 seconds, and \<open>world_same_second\<close> differs from
  \<open>world_before\<close> in the milliseconds and in the slot only. The quote swaps \<open>10^9\<close> of
  token A.
\<close>

definition world_before :: world where
  "world_before = \<lparr> dateNow = 500000, getSlot = 7,
       poolAccounts = (\<lambda>k. if k = replicate 32 9 then Some example_pool else None) \<rparr>"

definition world_during :: world where
  "world_during = world_before \<lparr> dateNow := 1055000 \<rparr>"

definition world_same_second :: world where
  "world_same_second = world_before \<lparr> dateNow := 500999, getSlot := 8 \<rparr>"

definition quote_params :: GetQuoteParams where
  "quote_params = \<lparr> pool = replicate 32 9, inAmount = 10 ^ 9, inputTokenMint = replicate 32 1 \<rparr>"

text \<open>
  A pool without a fee schedule (no periods, period frequency 0, no reduction), as a pool
  with a constant base fee is configured, under the same address, read at the same two
  clock values.
\<close>

definition flat_pool :: PoolState where
  "flat_pool =
     example_pool \<lparr> poolFees := (poolFees example_pool)
                      \<lparr> numberOfPeriod := 0, reductionFactor := 0, periodFrequency := 0 \<rparr> \<rparr>"

definition flat_world_before :: world where
  "flat_world_before = \<lparr> dateNow = 500000, getSlot = 7,
       poolAccounts = (\<lambda>k. if k = replicate 32 9 then Some flat_pool else None) \<rparr>"

definition flat_world_during :: world where
  "flat_world_during = flat_world_before \<lparr> dateNow := 1055000 \<rparr>"


section \<open>Properties of the number model\<close>

text \<open>
  \<open>floor_log\<close> finds the exponent of its argument, so \<open>double_of_rat\<close> rounds on the
  right binade. The rules below also evaluate a rounding from its exponent and significand.
\<close>

lemma floor_log_bounds:
  assumes q: "q \<noteq> 0" and b: "1 < b"
  shows "of_nat b powi (floor_log b q) \<le> \<bar>q\<bar> \<and> \<bar>q\<bar> < of_nat b powi (floor_log b q + 1)"
proof -
  obtain n d where nd: "quotient_of \<bar>q\<bar> = (n, d)" by (cases "quotient_of \<bar>q\<bar>")
  have dpos: "0 < d" using nd by (rule quotient_of_denom_pos)
  have qeq: "\<bar>q\<bar> = of_int n / of_int d" using nd by (rule quotient_of_div)
  have npos: "0 < n"
  proof -
    have "0 < \<bar>q\<bar>" using q by simp
    then have "0 < (of_int n :: rat) / of_int d" using qeq by simp
    then show ?thesis using dpos by (simp add: zero_less_divide_iff)
  qed
  define a where "a = floorlog b (nat n)"
  define c where "c = floorlog b (nat d)"
  define B where "B = (of_nat b :: rat)"
  have B1: "1 < B" using b by (simp add: B_def)
  have B0: "B \<noteq> 0" using B1 by simp
  have an: "b ^ (a - 1) \<le> nat n" "nat n < b ^ a"
    using floorlog_bounds[of "nat n" b] npos b by (simp_all add: a_def)
  have cd: "b ^ (c - 1) \<le> nat d" "nat d < b ^ c"
    using floorlog_bounds[of "nat d" b] dpos b by (simp_all add: c_def)
  have a1: "1 \<le> a" using an(2) npos by (cases a) auto
  have c1: "1 \<le> c" using cd(2) dpos by (cases c) auto
  have n_lo: "B ^ (a - 1) \<le> of_int n"
  proof -
    have "(of_nat (b ^ (a - 1)) :: rat) \<le> of_nat (nat n)" using an(1) by (simp only: of_nat_le_iff)
    then show ?thesis using npos by (simp add: B_def)
  qed
  have n_hi: "of_int n < B ^ a"
  proof -
    have "(of_nat (nat n) :: rat) < of_nat (b ^ a)" using an(2) by (simp only: of_nat_less_iff)
    then show ?thesis using npos by (simp add: B_def)
  qed
  have d_lo: "B ^ (c - 1) \<le> of_int d"
  proof -
    have "(of_nat (b ^ (c - 1)) :: rat) \<le> of_nat (nat d)" using cd(1) by (simp only: of_nat_le_iff)
    then show ?thesis using dpos by (simp add: B_def)
  qed
  have d_hi: "of_int d < B ^ c"
  proof -
    have "(of_nat (nat d) :: rat) < of_nat (b ^ c)" using cd(2) by (simp only: of_nat_less_iff)
    then show ?thesis using dpos by (simp add: B_def)
  qed
  have dq: "(0::rat) < of_int d" using dpos by simp
  have nq: "(0::rat) < of_int n" using npos by simp
  have Bp: "\<And>k. 0 < B ^ k" using B1 by simp
  define e0 where "e0 = int a - int c"
  have hi: "\<bar>q\<bar> < B powi (e0 + 1)"
  proof -
    have "e0 + 1 = int a - int (c - 1)" using c1 by (simp add: e0_def of_nat_diff)
    then have eq: "B powi (e0 + 1) = B ^ a / B ^ (c - 1)"
      using power_int_diff[of B "int a" "int (c - 1)"] B0 by simp
    have "of_int n / of_int d < B ^ a / of_int d"
      using n_hi dq by (simp add: divide_strict_right_mono)
    also have "\<dots> \<le> B ^ a / B ^ (c - 1)"
      using d_lo Bp[of a] Bp[of "c - 1"] by (simp add: frac_le)
    finally show ?thesis using qeq eq by simp
  qed
  have lo: "B powi (e0 - 1) < \<bar>q\<bar>"
  proof -
    have "e0 - 1 = int (a - 1) - int c" using a1 by (simp add: e0_def of_nat_diff)
    then have eq: "B powi (e0 - 1) = B ^ (a - 1) / B ^ c"
      using power_int_diff[of B "int (a - 1)" "int c"] B0 by simp
    have "B ^ (a - 1) / B ^ c < B ^ (a - 1) / of_int d"
      using d_hi dq Bp[of "a - 1"] by (simp add: frac_less2)
    also have "\<dots> \<le> of_int n / of_int d"
      using n_lo dq by (simp add: divide_right_mono)
    finally show ?thesis using qeq eq by simp
  qed
  have fl: "floor_log b q = (if B powi e0 \<le> \<bar>q\<bar> then e0 else e0 - 1)"
    by (simp add: floor_log_def nd a_def c_def e0_def B_def Let_def)
  show ?thesis
  proof (cases "B powi e0 \<le> \<bar>q\<bar>")
    case True
    then show ?thesis using hi fl by (simp add: B_def)
  next
    case False
    then have "\<bar>q\<bar> < B powi e0" by simp
    then show ?thesis using lo fl False by (simp add: B_def)
  qed
qed

lemma floor_log_eqI:
  assumes b: "1 < b" and lo: "of_nat b powi e \<le> \<bar>q\<bar>" and hi: "\<bar>q\<bar> < of_nat b powi (e + 1)"
  shows "floor_log b q = e"
proof -
  define B where "B = (of_nat b :: rat)"
  have B1: "1 < B" using b by (simp add: B_def)
  have "0 < B powi e" using B1 by simp
  then have q: "q \<noteq> 0" using lo by (auto simp: B_def)
  define r where "r = floor_log b q"
  have r: "B powi r \<le> \<bar>q\<bar>" "\<bar>q\<bar> < B powi (r + 1)"
    using floor_log_bounds[OF q b] by (simp_all add: r_def B_def)
  have "\<not> e < r"
  proof
    assume "e < r"
    then have "B powi (e + 1) \<le> B powi r" using B1 by (intro power_int_increasing) auto
    then show False using hi r(1) by (simp add: B_def)
  qed
  moreover have "\<not> r < e"
  proof
    assume "r < e"
    then have "B powi (r + 1) \<le> B powi e" using B1 by (intro power_int_increasing) auto
    then show False using lo r(2) by (simp add: B_def)
  qed
  ultimately show ?thesis by (simp add: r_def)
qed

lemma round_half_even_eqI:
  assumes "of_int m - 1 / 2 < x" and "x < of_int m + 1 / 2"
  shows "round_half_even x = m"
proof (cases "of_int m \<le> x")
  case True
  then have f: "\<lfloor>x\<rfloor> = m" using assms by (intro floor_unique) auto
  show ?thesis using assms by (simp add: round_half_even_def f Let_def)
next
  case False
  then have f: "\<lfloor>x\<rfloor> = m - 1" using assms by (intro floor_unique) auto
  show ?thesis using assms False by (simp add: round_half_even_def f Let_def)
qed

lemma double_of_rat_eqI:
  assumes lo: "2 powi e \<le> \<bar>q\<bar>" and hi: "\<bar>q\<bar> < 2 powi (e + 1)"
    and e: "- 1022 \<le> e" "e < 1023"
    and m: "of_int m - 1 / 2 < \<bar>q\<bar> / 2 powi (e - 52)" "\<bar>q\<bar> / 2 powi (e - 52) < of_int m + 1 / 2"
  shows "double_of_rat q = Fin ((if 0 < q then 1 else - 1) * of_int m * 2 powi (e - 52))"
proof -
  have fl: "floor_log 2 q = e" using lo hi by (intro floor_log_eqI) auto
  have "(0::rat) < 2 powi e" by simp
  with lo have "0 < \<bar>q\<bar>" by linarith
  then have q: "q \<noteq> 0" by simp
  have r: "round_half_even (\<bar>q\<bar> / 2 powi (e - 52)) = m" using m by (rule round_half_even_eqI)
  show ?thesis using e q by (simp add: double_of_rat_def fl r Let_def max_def)
qed

lemma BN_of_number_eqI:
  assumes "0 \<le> x" and "x < 2 ^ 53" and "of_int n \<le> x" and "x < of_int n + 1"
  shows "BN_of_number (Fin x) = Inr n"
proof -
  have "\<lfloor>x\<rfloor> = n" using assms(3,4) by (rule floor_unique)
  then show ?thesis using assms(1,2) by simp
qed


text \<open>
  The same for decimal.js: a rounding to 20 significant digits from its decimal exponent and
  its digits, \<open>floor_sqrt\<close> as the integer part of the root, and the rounded root from the
  root of the scaled argument.
\<close>

lemma round_sig_eqI:
  assumes lo: "10 powi e \<le> \<bar>q\<bar>" and hi: "\<bar>q\<bar> < 10 powi (e + 1)"
    and m: "of_int m \<le> \<bar>q\<bar> / 10 powi (e - 19) + 1 / 2" "\<bar>q\<bar> / 10 powi (e - 19) + 1 / 2 < of_int m + 1"
  shows "round_sig q = (if q < 0 then - 1 else 1) * of_int m * 10 powi (e - 19)"
proof -
  have fl: "floor_log 10 q = e" using lo hi by (intro floor_log_eqI) auto
  have "(0::rat) < 10 powi e" by simp
  with lo have "0 < \<bar>q\<bar>" by linarith
  then have q: "q \<noteq> 0" by simp
  have f: "\<lfloor>\<bar>q\<bar> / 10 powi (e - 19) + 1 / 2\<rfloor> = m" using m by (rule floor_unique)
  have "round_sig q =
          (if q < 0 then - (of_int \<lfloor>\<bar>q\<bar> / 10 powi (e - 19) + 1 / 2\<rfloor> * 10 powi (e - 19))
           else of_int \<lfloor>\<bar>q\<bar> / 10 powi (e - 19) + 1 / 2\<rfloor> * 10 powi (e - 19))"
    using q unfolding round_sig_def Let_def fl DECIMAL_PRECISION_def by (simp del: abs_if)
  then show ?thesis unfolding f by simp
qed

lemma floor_sqrt_bounds: "floor_sqrt n * floor_sqrt n \<le> n \<and> n < (floor_sqrt n + 1) * (floor_sqrt n + 1)"
proof (induction n rule: floor_sqrt.induct)
  case (1 n)
  show ?case
  proof (cases "n = 0")
    case True
    then show ?thesis by (subst floor_sqrt.simps, subst (2) floor_sqrt.simps) simp
  next
    case False
    define q where "q = floor_sqrt (n div 4)"
    have ih: "q * q \<le> n div 4" "n div 4 < (q + 1) * (q + 1)"
      using "1.IH"[OF False] by (simp_all add: q_def)
    have lo: "(2 * q) * (2 * q) \<le> n"
    proof -
      have "4 * (q * q) \<le> 4 * (n div 4)" using ih(1) by simp
      also have "\<dots> \<le> n" by simp
      finally show ?thesis by (simp add: algebra_simps)
    qed
    have hi: "n < (2 * q + 2) * (2 * q + 2)"
    proof -
      have "n div 4 + 1 \<le> (q + 1) * (q + 1)" using ih(2) by simp
      then have "4 * (n div 4 + 1) \<le> 4 * ((q + 1) * (q + 1))" by simp
      moreover have "n < 4 * (n div 4 + 1)" by simp
      ultimately have "n < 4 * ((q + 1) * (q + 1))" by linarith
      then show ?thesis by (simp add: algebra_simps)
    qed
    have unf: "floor_sqrt n = (if (2 * q + 1) * (2 * q + 1) \<le> n then 2 * q + 1 else 2 * q)"
      using False by (subst floor_sqrt.simps) (simp add: q_def Let_def)
    show ?thesis
    proof (cases "(2 * q + 1) * (2 * q + 1) \<le> n")
      case True
      then show ?thesis using hi unf by (simp add: algebra_simps)
    next
      case False
      then show ?thesis using lo unf by (simp add: algebra_simps)
    qed
  qed
qed

lemma floor_sqrt_eqI:
  assumes "k * k \<le> n" and "n < (k + 1) * (k + 1)"
  shows "floor_sqrt n = k"
proof -
  define r where "r = floor_sqrt n"
  have r: "r * r \<le> n" "n < (r + 1) * (r + 1)" using floor_sqrt_bounds[of n] by (simp_all add: r_def)
  have "\<not> k < r"
  proof
    assume "k < r"
    then have "k + 1 \<le> r" by simp
    then have "(k + 1) * (k + 1) \<le> r * r" by (intro mult_le_mono)
    then show False using assms(2) r(1) by linarith
  qed
  moreover have "\<not> r < k"
  proof
    assume "r < k"
    then have "r + 1 \<le> k" by simp
    then have "(r + 1) * (r + 1) \<le> k * k" by (intro mult_le_mono)
    then show False using assms(1) r(2) by linarith
  qed
  ultimately show ?thesis by (simp add: r_def)
qed

lemma sqrt_sig_eqI:
  assumes lo: "10 powi k \<le> x" and hi: "x < 10 powi (k + 1)"
    and e: "e = k div 2"
    and f: "\<lfloor>4 * x / (10 powi (e - 19) * 10 powi (e - 19))\<rfloor> = int n"
    and t: "t * t \<le> n" "n < (t + 1) * (t + 1)"
  shows "sqrt_sig x = of_nat ((t + 1) div 2) * 10 powi (e - 19)"
proof -
  have "(0::rat) < 10 powi k" by simp
  with lo have x: "0 < x" by linarith
  have fl: "floor_log 10 x = k" using lo hi x by (intro floor_log_eqI) auto
  have fs: "floor_sqrt n = t" using t by (rule floor_sqrt_eqI)
  show ?thesis using x by (simp add: sqrt_sig_def fl e[symmetric] f fs Let_def DECIMAL_PRECISION_def)
qed


subsection \<open>Relative error of the decimal operations\<close>

text \<open>
  \<open>sqrt_sig\<close> returns the multiple of the unit of the twentieth digit nearest to the real
  square root, and every operation rounded to 20 significant digits is within a relative
  error of \<open>1 / (2 * 10^19)\<close> of the exact value.
\<close>

lemma sqrt_sig_nearest:
  assumes x: "0 < x"
  defines "u \<equiv> 10 powi (floor_log 10 x div 2 - 19)"
  shows "real_of_rat (sqrt_sig x) - real_of_rat u / 2 \<le> sqrt (real_of_rat x)
       \<and> sqrt (real_of_rat x) < real_of_rat (sqrt_sig x) + real_of_rat u / 2"
proof -
  have u: "0 < u" by (simp add: u_def)
  define y where "y = 4 * x / (u * u)"
  have y: "0 < y" using x u by (simp add: y_def)
  define N where "N = nat \<lfloor>y\<rfloor>"
  have N: "int N = \<lfloor>y\<rfloor>" using y by (simp add: N_def)
  define t where "t = floor_sqrt N"
  have t: "t * t \<le> N" "N < (t + 1) * (t + 1)"
    using floor_sqrt_bounds[of N] by (simp_all add: t_def)
  define m where "m = (t + 1) div 2"
  have m: "2 * m \<le> t + 1" "t \<le> 2 * m" by (simp_all add: m_def) 
  have ss: "sqrt_sig x = of_nat m * u"
    using x by (simp add: sqrt_sig_def Let_def DECIMAL_PRECISION_def u_def y_def N_def t_def m_def)
  define X where "X = real_of_rat x"
  define U where "U = real_of_rat u"
  define Y where "Y = real_of_rat y"
  have U: "0 < U" using u by (simp add: U_def)
  have X: "0 < X" using x by (simp add: X_def)
  have YX: "Y = (2 / U)\<^sup>2 * X"
    by (simp add: Y_def y_def X_def U_def of_rat_divide of_rat_mult power2_eq_square)
  have sqY: "sqrt Y = 2 / U * sqrt X"
    using U by (simp add: YX real_sqrt_mult)
  have NY: "real N \<le> Y" "Y < real N + 1"
  proof -
    have "of_int \<lfloor>y\<rfloor> \<le> y" "y < of_int \<lfloor>y\<rfloor> + 1" by linarith+
    then have "rat_of_nat N \<le> y" "y < rat_of_nat N + 1"
      using N by (metis of_int_of_nat_eq)+
    then have "real_of_rat (rat_of_nat N) \<le> real_of_rat y" "real_of_rat y < real_of_rat (rat_of_nat N + 1)"
      by (simp_all only: of_rat_less_eq of_rat_less)
    then show "real N \<le> Y" "Y < real N + 1" by (simp_all add: Y_def of_rat_add)
  qed
  have lo: "real t \<le> sqrt Y"
  proof -
    have "real (t * t) \<le> real N" using t(1) by (simp only: of_nat_le_iff)
    then have "(real t)\<^sup>2 \<le> Y" using NY(1) by (simp add: power2_eq_square)
    then show ?thesis by (rule real_le_rsqrt)
  qed
  have hi: "sqrt Y < real t + 1"
  proof -
    have "real N + 1 \<le> real ((t + 1) * (t + 1))" using t(2) by (simp only: flip: of_nat_Suc)
    then have "Y < (real t + 1)\<^sup>2" using NY(2) by (simp add: power2_eq_square algebra_simps)
    moreover have "0 \<le> Y" using NY(1) by (meson of_nat_0_le_iff order_trans)
    ultimately show ?thesis by (intro real_less_lsqrt) simp_all
  qed
  have m1: "2 * real m - 1 \<le> real t" using m(1) by (simp flip: of_nat_mult of_nat_le_iff)
  have m2: "real t \<le> 2 * real m" using m(2) by (simp flip: of_nat_mult of_nat_le_iff)
  have a: "2 * real m - 1 \<le> 2 / U * sqrt X" using lo m1 sqY by linarith
  have b: "2 / U * sqrt X < 2 * real m + 1" using hi m2 sqY by linarith
  have a': "real m * U - U / 2 \<le> sqrt X"
  proof -
    have "(2 * real m - 1) * (U / 2) \<le> (2 / U * sqrt X) * (U / 2)"
      using a U by (intro mult_right_mono) simp_all
    then show ?thesis using U by (simp add: algebra_simps)
  qed
  have b': "sqrt X < real m * U + U / 2"
  proof -
    have "(2 / U * sqrt X) * (U / 2) < (2 * real m + 1) * (U / 2)"
      using b U by (intro mult_strict_right_mono) simp_all
    then show ?thesis using U by (simp add: algebra_simps)
  qed
  have "real_of_rat (sqrt_sig x) = real m * U"
    by (simp add: ss U_def of_rat_mult)
  then show ?thesis using a' b' by (simp add: X_def U_def)
qed


lemma round_sig_error: "\<bar>round_sig q - q\<bar> \<le> \<bar>q\<bar> / (2 * 10 ^ 19)"
proof (cases "q = 0")
  case True
  then show ?thesis by (simp add: round_sig_def)
next
  case False
  define e where "e = floor_log 10 q"
  define u :: rat where "u = 10 powi (e - 19)"
  define m where "m = \<lfloor>\<bar>q\<bar> / u + 1 / 2\<rfloor>"
  have u: "0 < u" by (simp add: u_def)
  have lo: "10 powi e \<le> \<bar>q\<bar>" using floor_log_bounds[OF False, of 10] by (simp add: e_def)
  have ue: "u * 10 ^ 19 = 10 powi e"
    using power_int_diff[of "10::rat" e 19] by (simp add: u_def)
  have m: "of_int m \<le> \<bar>q\<bar> / u + 1 / 2" "\<bar>q\<bar> / u + 1 / 2 < of_int m + 1"
    unfolding m_def by linarith+
  have m1: "of_int m * u \<le> \<bar>q\<bar> + u / 2"
  proof -
    have "of_int m * u \<le> (\<bar>q\<bar> / u + 1 / 2) * u" using m(1) u by (intro mult_right_mono) simp_all
    then show ?thesis using u by (simp add: algebra_simps)
  qed
  have m2: "\<bar>q\<bar> - u / 2 < of_int m * u"
  proof -
    have "(\<bar>q\<bar> / u + 1 / 2) * u < (of_int m + 1) * u" using m(2) u by (intro mult_strict_right_mono) simp_all
    then show ?thesis using u by (simp add: algebra_simps)
  qed
  have rs: "round_sig q = (if q < 0 then - (of_int m * u) else of_int m * u)"
    using False unfolding round_sig_def Let_def DECIMAL_PRECISION_def m_def u_def e_def
    by (simp del: abs_if)
  have "\<bar>round_sig q - q\<bar> = \<bar>of_int m * u - \<bar>q\<bar>\<bar>"
  proof (cases "q < 0")
    case True
    then have "round_sig q - q = - (of_int m * u - \<bar>q\<bar>)" by (simp add: rs)
    then show ?thesis by (simp only: abs_minus_cancel)
  next
    case False
    then have "round_sig q - q = of_int m * u - \<bar>q\<bar>" by (simp add: rs)
    then show ?thesis by simp
  qed
  also have "\<dots> \<le> u / 2" using m1 m2 by (intro abs_leI) linarith+
  also have "u / 2 \<le> \<bar>q\<bar> / (2 * 10 ^ 19)"
  proof -
    have "u * 10 ^ 19 \<le> \<bar>q\<bar>" using lo ue by simp
    then have "u \<le> \<bar>q\<bar> / 10 ^ 19" by (simp add: pos_le_divide_eq)
    then show ?thesis by simp
  qed
  finally show ?thesis .
qed

lemma round_sig_bounds:
  assumes "0 \<le> q"
  shows "(1 - 1 / (2 * 10 ^ 19)) * q \<le> round_sig q \<and> round_sig q \<le> (1 + 1 / (2 * 10 ^ 19)) * q"
proof -
  define h where "h = q / (2 * 10 ^ 19)"
  have "\<bar>round_sig q - q\<bar> \<le> h" using round_sig_error[of q] assms by (simp add: h_def)
  then have "round_sig q - q \<le> h" "- (round_sig q - q) \<le> h"
    by (rule abs_le_D1, rule abs_le_D2)
  then have b: "q - h \<le> round_sig q \<and> round_sig q \<le> q + h" by linarith
  have e: "(1 - 1 / (2 * 10 ^ 19)) * q = q - h" "(1 + 1 / (2 * 10 ^ 19)) * q = q + h"
    by (simp_all add: h_def left_diff_distrib distrib_right)
  show ?thesis using b by (simp only: e)
qed

lemma sqrt_sig_bounds:
  assumes x: "0 < x"
  shows "(1 - 1 / (2 * 10 ^ 19)) * sqrt (real_of_rat x) \<le> real_of_rat (sqrt_sig x)
       \<and> real_of_rat (sqrt_sig x) \<le> (1 + 1 / (2 * 10 ^ 19)) * sqrt (real_of_rat x)"
proof -
  define k where "k = floor_log 10 x"
  define u :: rat where "u = 10 powi (k div 2 - 19)"
  define U where "U = real_of_rat u"
  define X where "X = real_of_rat x"
  have near: "real_of_rat (sqrt_sig x) - U / 2 \<le> sqrt X" "sqrt X < real_of_rat (sqrt_sig x) + U / 2"
    using sqrt_sig_nearest[OF x] by (simp_all add: U_def u_def k_def X_def)
  have lo: "10 powi k \<le> x" using floor_log_bounds[of x 10] x by (simp add: k_def)
  have "k div 2 + k div 2 \<le> k" by linarith
  then have "(10::rat) powi (k div 2 + k div 2) \<le> 10 powi k" by (intro power_int_increasing) simp_all
  moreover have "((10::rat) powi (k div 2))\<^sup>2 = 10 powi (k div 2 + k div 2)"
    using power_int_add[of "10::rat" "k div 2" "k div 2"] by (simp add: power2_eq_square)
  ultimately have "(10 powi (k div 2))\<^sup>2 \<le> x"
    using lo by linarith
  then have "real_of_rat ((10 powi (k div 2))\<^sup>2) \<le> X" by (simp only: X_def of_rat_less_eq)
  then have "(real_of_rat (10 powi (k div 2)))\<^sup>2 \<le> X" by (simp add: of_rat_power)
  then have r: "real_of_rat (10 powi (k div 2)) \<le> sqrt X" by (rule real_le_rsqrt)
  have "u * 10 ^ 19 = 10 powi (k div 2)"
    using power_int_diff[of "10::rat" "k div 2" 19] by (simp add: u_def)
  then have "real_of_rat (u * 10 ^ 19) = real_of_rat (10 powi (k div 2))" by (rule arg_cong)
  then have "U * 10 ^ 19 = real_of_rat (10 powi (k div 2))"
    by (simp add: U_def of_rat_mult of_rat_power)
  then have "U * 10 ^ 19 \<le> sqrt X" using r by simp
  then have "U / 2 \<le> sqrt X / (2 * 10 ^ 19)" by (simp add: pos_le_divide_eq)
  moreover define h where "h = sqrt X / (2 * 10 ^ 19)"
  ultimately have h: "U / 2 \<le> h" by simp
  have b: "sqrt X - h \<le> real_of_rat (sqrt_sig x) \<and> real_of_rat (sqrt_sig x) \<le> sqrt X + h"
    using near h by linarith
  have e: "(1 - 1 / (2 * 10 ^ 19)) * sqrt X = sqrt X - h" "(1 + 1 / (2 * 10 ^ 19)) * sqrt X = sqrt X + h"
    by (simp_all add: h_def left_diff_distrib distrib_right)
  show ?thesis using b unfolding X_def[symmetric] by (simp only: e)
qed


lemma round_sig_bounds_real:
  assumes "0 \<le> q"
  shows "(1 - 1 / (2 * 10 ^ 19)) * real_of_rat q \<le> real_of_rat (round_sig q)
       \<and> real_of_rat (round_sig q) \<le> (1 + 1 / (2 * 10 ^ 19)) * real_of_rat q"
proof -
  have b: "(1 - 1 / (2 * 10 ^ 19)) * q \<le> round_sig q" "round_sig q \<le> (1 + 1 / (2 * 10 ^ 19)) * q"
    using round_sig_bounds[OF assms] by simp_all
  have "real_of_rat ((1 - 1 / (2 * 10 ^ 19)) * q) \<le> real_of_rat (round_sig q)"
    using b(1) by (simp only: of_rat_less_eq)
  moreover have "real_of_rat (round_sig q) \<le> real_of_rat ((1 + 1 / (2 * 10 ^ 19)) * q)"
    using b(2) by (simp only: of_rat_less_eq)
  moreover have "real_of_rat ((1 - 1 / (2 * 10 ^ 19)) * q) = (1 - 1 / (2 * 10 ^ 19)) * real_of_rat q"
    "real_of_rat ((1 + 1 / (2 * 10 ^ 19)) * q) = (1 + 1 / (2 * 10 ^ 19)) * real_of_rat q"
    by (simp_all add: of_rat_mult of_rat_diff of_rat_add of_rat_divide of_rat_power)
  ultimately show ?thesis by simp
qed

lemma sqrt_sig_nonneg: "0 \<le> sqrt_sig x"
  by (simp add: sqrt_sig_def Let_def)

lemma bound_step:
  fixes p z z' :: real
  assumes "L * p \<le> z" "z \<le> U * p" "l * z \<le> z'" "z' \<le> h * z" "0 \<le> l" "0 \<le> h"
  shows "(l * L) * p \<le> z' \<and> z' \<le> (h * U) * p"
proof -
  have "l * (L * p) \<le> l * z" using assms(1,5) by (rule mult_left_mono)
  moreover have "h * z \<le> h * (U * p)" using assms(2,6) by (rule mult_left_mono)
  ultimately show ?thesis using assms(3,4) by (simp add: mult.assoc)
qed

lemma square_bounds:
  fixes y z :: real
  assumes "l * y \<le> z" "z \<le> h * y" "0 \<le> l" "0 \<le> y"
  shows "l\<^sup>2 * y\<^sup>2 \<le> z\<^sup>2 \<and> z\<^sup>2 \<le> h\<^sup>2 * y\<^sup>2"
proof -
  have ly: "0 \<le> l * y" using assms(3,4) by simp
  then have z: "0 \<le> z" using assms(1) by linarith
  have "(l * y)\<^sup>2 \<le> z\<^sup>2" using assms(1) ly by (rule power_mono)
  moreover have "z\<^sup>2 \<le> (h * y)\<^sup>2" using assms(2) z by (rule power_mono)
  ultimately show ?thesis by (simp add: power_mult_distrib)
qed

section \<open>Slippage\<close>

lemma slippage_one_up: "js_mul_const (js_div_const (js_add 100 1) 100) 10000 = Fin 10100"
proof -
  have s1: "double_of_rat 101 = Fin 101"
    using double_of_rat_eqI[of 6 101 7107243161944064] by simp
  have s2: "double_of_rat (101 / 100) = Fin (4548635623644201 / 4503599627370496)"
    using double_of_rat_eqI[of 0 "101 / 100" 4548635623644201] by simp
  have s3: "double_of_rat (2842897264777625625 / 281474976710656) = Fin 10100"
    using double_of_rat_eqI[of 13 "2842897264777625625 / 281474976710656" 5552533720268800]
    by simp
  show ?thesis by (simp add: js_add_def s1 s2 s3)
qed

lemma slippage_one_down: "js_mul_const (js_div_const (js_sub 100 1) 100) 10000 = Fin 9900"
proof -
  have s1: "double_of_rat 99 = Fin 99"
    using double_of_rat_eqI[of 6 99 6966505673588736] by simp
  have s2: "double_of_rat (99 / 100) = Fin (4458563631096791 / 4503599627370496)"
    using double_of_rat_eqI[of "- 1" "99 / 100" 8917127262193582] by simp
  have s3: "double_of_rat (2786602269435494375 / 281474976710656) = Fin 9900"
    using double_of_rat_eqI[of 13 "2786602269435494375 / 281474976710656" 5442582557491200]
    by simp
  show ?thesis by (simp add: js_sub_def s1 s2 s3)
qed

text \<open>
  The spec's scenario: one percent of slippage on 1000000 gives 1010000 and 990000.
\<close>

lemma slippage_one_percent:
  "getMaxAmountWithSlippage 1000000 1 = Inr 1010000
   \<and> getMinAmountWithSlippage 1000000 1 = Inr 990000"
  by (simp add: getMaxAmountWithSlippage_def getMinAmountWithSlippage_def BASIS_POINT_MAX_def
      slippage_one_up slippage_one_down BN_mul_def BN_div_def)

lemma slippage_half_up:
  "js_mul_const (js_div_const (js_add 100 (1 / 2)) 100) 10000
     = Fin (5525045929574399 / 549755813888)"
proof -
  have s1: "double_of_rat (201 / 2) = Fin (201 / 2)"
    using double_of_rat_eqI[of 6 "201 / 2" 7072058789855232] by simp
  have s2: "double_of_rat (201 / 200) = Fin (1131529406376837 / 1125899906842624)"
    using double_of_rat_eqI[of 0 "201 / 200" 4526117625507348] by simp
  have s3: "double_of_rat (707205878985523125 / 70368744177664)
              = Fin (5525045929574399 / 549755813888)"
    using double_of_rat_eqI[of 13 "707205878985523125 / 70368744177664" 5525045929574399]
    by simp
  show ?thesis by (simp add: js_add_def s1 s2 s3)
qed

text \<open>
  C9. The slippage helpers are a linear basis-point adjustment,
  \<open>floor(amount * (10000 + 100 * rate) / 10000)\<close>, for every rate of at most two decimal
  places. At the rate 0.5 (an exact binary64 value) the factor computed in binary64 is
  \<open>10049.999999999998\<close>, which \<open>new BN\<close> cuts to 10049: the code returns 1004900 where
  the formula gives 1005000.
\<close>

theorem getMaxAmountWithSlippage_half_percent:
  "double_of_rat (1 / 2) = Fin (1 / 2)
   \<and> getMaxAmountWithSlippage 1000000 (1 / 2) = Inr 1004900
   \<and> maxAmountWithSlippage_spec 1000000 (1 / 2) = 1005000"
proof -
  have half: "double_of_rat (1 / 2) = Fin (1 / 2)"
    using double_of_rat_eqI[of "- 1" "1 / 2" 4503599627370496] by simp
  have cut: "BN_of_number (Fin (5525045929574399 / 549755813888)) = Inr 10049"
    by (rule BN_of_number_eqI) simp_all
  have code: "getMaxAmountWithSlippage 1000000 (1 / 2) = Inr 1004900"
    using slippage_half_up cut
    by (simp add: getMaxAmountWithSlippage_def BASIS_POINT_MAX_def BN_mul_def BN_div_def)
  have spec: "maxAmountWithSlippage_spec 1000000 (1 / 2) = 1005000"
    by (simp add: maxAmountWithSlippage_spec_def)
  show ?thesis using half code spec by simp
qed


text \<open>
  The lower helper is cut in the same way: at the rate 0.01, the binary64 value nearest to
  one hundredth, the factor is \<open>9998.999999999998\<close> and the result 999800, where the
  formula gives 999900.
\<close>

lemma getMinAmountWithSlippage_hundredth:
  "double_of_rat (1 / 100) = Fin (5764607523034235 / 576460752303423488)
   \<and> getMinAmountWithSlippage 1000000 (5764607523034235 / 576460752303423488) = Inr 999800
   \<and> minAmountWithSlippage_spec 1000000 (1 / 100) = 999900"
proof -
  have r: "double_of_rat (1 / 100) = Fin (5764607523034235 / 576460752303423488)"
    using double_of_rat_eqI[of "- 7" "1 / 100" 5764607523034235] by simp
  have s1: "double_of_rat (57640310622819314565 / 576460752303423488)
              = Fin (7036170730324623 / 70368744177664)"
    using double_of_rat_eqI[of 6 "57640310622819314565 / 576460752303423488" 7036170730324623]
    by simp
  have s2: "double_of_rat (7036170730324623 / 7036874417766400)
              = Fin (9006298534815517 / 9007199254740992)"
    using double_of_rat_eqI[of "- 1" "7036170730324623 / 7036874417766400" 9006298534815517]
    by simp
  have s3: "double_of_rat (5628936584259698125 / 562949953421312)
              = Fin (5497008383066111 / 549755813888)"
    using double_of_rat_eqI[of 13 "5628936584259698125 / 562949953421312" 5497008383066111]
    by simp
  have cut: "BN_of_number (Fin (5497008383066111 / 549755813888)) = Inr 9998"
    by (rule BN_of_number_eqI) simp_all
  have code: "getMinAmountWithSlippage 1000000 (5764607523034235 / 576460752303423488)
                = Inr 999800"
    using cut
    by (simp add: getMinAmountWithSlippage_def js_sub_def s1 s2 s3 BASIS_POINT_MAX_def
        BN_mul_def BN_div_def)
  have spec: "minAmountWithSlippage_spec 1000000 (1 / 100) = 999900"
    by (simp add: minAmountWithSlippage_spec_def)
  show ?thesis using r code spec by simp
qed

section \<open>Price conversions\<close>

lemma sqrt_sig_36: "sqrt_sig 36 = 6"
  using sqrt_sig_eqI[of 1 36 0 14400000000000000000000000000000000000000 120000000000000000000]
  by simp

lemma round_sig_36: "round_sig 36 = 36"
  using round_sig_eqI[of 1 36 36000000000000000000] by simp

lemma Decimal_pow2_64: "Decimal_pow2 64 = 18446744073709551616"
  using round_sig_eqI[of 19 "2 ^ 64" 18446744073709551616] by (simp add: Decimal_pow2_def)

lemma round_sig_six_q64: "round_sig 110680464442257309696 = 110680464442257309700"
  using round_sig_eqI[of 20 110680464442257309696 11068046444225730970] by simp


lemma Decimal_pow2_128: "Decimal_pow2 128 = 340282366920938463460000000000000000000"
  using round_sig_eqI[of 38 "2 ^ 128" 34028236692093846346] by (simp add: Decimal_pow2_def)

lemma priceToSqrtPrice_spec_36: "priceToSqrtPrice_spec 36 6 6 = 110680464442257309696"
proof -
  have "sqrt 36 = 6" by (rule real_sqrt_unique) simp_all
  then show ?thesis by (simp add: priceToSqrtPrice_spec_def)
qed

lemma getSqrtPriceFromPrice_36: "getSqrtPriceFromPrice 36 6 6 = Inr 110680464442257309700"
  by (simp add: getSqrtPriceFromPrice_def Decimal_of_pow10_def Decimal_div_def round_sig_36
      sqrt_sig_36 Decimal_pow2_64 round_sig_six_q64 Let_def)

lemma getPriceFromSqrtPrice_36:
  "getPriceFromSqrtPrice 110680464442257309700 6 6 = Fin (36000000000000000004 / 10 ^ 18)"
proof -
  have s1: "round_sig 12250165209153784685566929583081714090000
              = 12250165209153784686000000000000000000000"
    using round_sig_eqI[of 40 12250165209153784685566929583081714090000 12250165209153784686]
    by simp
  have s2: "round_sig 12250165209153784686000000000000000000000
              = 12250165209153784686000000000000000000000"
    using round_sig_eqI[of 40 12250165209153784686000000000000000000000 12250165209153784686]
    by simp
  have s3: "round_sig (12250165209153784686000000000000000000000
                         / 340282366920938463460000000000000000000)
              = 36000000000000000004 / 10 ^ 18"
    using round_sig_eqI[of 1 "12250165209153784686000000000000000000000
                         / 340282366920938463460000000000000000000" 36000000000000000004]
    by simp
  show ?thesis
    using s3 by (simp add: getPriceFromSqrtPrice_def Decimal_of_pow10_def Decimal_div_def s1 s2
        Decimal_pow2_128 Let_def)
qed

text \<open>
  The round trip on the valid range: for a positive price whose sqrt-price is at least
  \<open>MIN_SQRT_PRICE\<close>, converting back gives a finite price within a relative error of
  \<open>2^-30\<close> of the original. Seven roundings to 20 digits and one \<open>floor\<close> of a value
  of at least \<open>2^32\<close> lie between the two.
\<close>

lemma price_round_trip:
  assumes p: "0 < price"
    and s: "getSqrtPriceFromPrice price tokenADecimal tokenBDecimal = Inr s"
    and v: "MIN_SQRT_PRICE \<le> s"
  shows "\<exists>price'. getPriceFromSqrtPrice s tokenADecimal tokenBDecimal = Fin price'
           \<and> \<bar>price' - price\<bar> \<le> price / 2 ^ 30"
proof -
  define T :: rat where "T = 10 powi (tokenADecimal - tokenBDecimal)"
  define a where "a = round_sig (price / T)"
  define b where "b = sqrt_sig a"
  define c where "c = round_sig (b * 2 ^ 64)"
  define t1 where "t1 = round_sig (of_int s * of_int s)"
  define t2 where "t2 = round_sig (t1 * T)"
  define P :: rat where "P = 340282366920938463460000000000000000000"
  define r where "r = round_sig (t2 / P)"
  define lo :: real where "lo = 1 - 1 / (2 * 10 ^ 19)"
  define hi :: real where "hi = 1 + 1 / (2 * 10 ^ 19)"
  define k :: real where "k = 1 + 1 / 2 ^ 32"
  define Pr :: real where "Pr = 340282366920938463460000000000000000000"
  define X where "X = real_of_rat price"
  define Tr where "Tr = real_of_rat T"
  define Q where "Q = X / Tr"
  define A where "A = real_of_rat a"
  define B where "B = real_of_rat b"
  define C where "C = real_of_rat c"
  define S where "S = real_of_int s"
  define T1 where "T1 = real_of_rat t1"
  define T2 where "T2 = real_of_rat t2"
  define R where "R = real_of_rat r"
  have T: "0 < T" by (simp add: T_def)
  have Tr: "0 < Tr" using T by (simp add: Tr_def)
  have X: "0 < X" using p by (simp add: X_def)
  have Q: "0 < Q" using X Tr by (simp add: Q_def)
  have lo: "0 < lo" by (simp add: lo_def)
  have hi: "0 < hi" by (simp add: hi_def)
  have k: "0 < k" by (simp add: k_def)
  have Pr: "0 < Pr" by (simp add: Pr_def)
  have q0: "0 \<le> price / T" using p T by simp
  have Qr: "real_of_rat (price / T) = Q" by (simp add: Q_def X_def Tr_def of_rat_divide)
  have bA: "lo * Q \<le> A \<and> A \<le> hi * Q"
    using round_sig_bounds_real[OF q0] by (simp only: Qr lo_def hi_def A_def a_def)
  have A: "0 < A"
  proof -
    have "0 < lo * Q" using lo Q by simp
    then show ?thesis using bA by linarith
  qed
  then have a: "0 < a" by (simp add: A_def)
  have b0: "0 \<le> b" by (simp add: b_def sqrt_sig_nonneg)
  have B0: "0 \<le> B" using b0 by (simp add: B_def)
  have bB: "lo * sqrt A \<le> B \<and> B \<le> hi * sqrt A"
    using sqrt_sig_bounds[OF a] by (simp only: lo_def hi_def A_def B_def b_def)
  have bB2: "lo\<^sup>2 * A \<le> B\<^sup>2 \<and> B\<^sup>2 \<le> hi\<^sup>2 * A"
  proof -
    have "lo\<^sup>2 * (sqrt A)\<^sup>2 \<le> B\<^sup>2 \<and> B\<^sup>2 \<le> hi\<^sup>2 * (sqrt A)\<^sup>2"
      using bB lo A by (intro square_bounds) simp_all
    then show ?thesis using A by simp
  qed
  have c0: "0 \<le> b * 2 ^ 64" using b0 by simp
  have Cr: "real_of_rat (b * 2 ^ 64) = B * 2 ^ 64" by (simp add: B_def of_rat_mult of_rat_power)
  have bC: "lo * (B * 2 ^ 64) \<le> C \<and> C \<le> hi * (B * 2 ^ 64)"
    using round_sig_bounds_real[OF c0] by (simp only: Cr lo_def hi_def C_def c_def)
  have bC2: "(lo\<^sup>2 * 2 ^ 128) * B\<^sup>2 \<le> C\<^sup>2 \<and> C\<^sup>2 \<le> (hi\<^sup>2 * 2 ^ 128) * B\<^sup>2"
  proof -
    have "lo\<^sup>2 * (B * 2 ^ 64)\<^sup>2 \<le> C\<^sup>2 \<and> C\<^sup>2 \<le> hi\<^sup>2 * (B * 2 ^ 64)\<^sup>2"
      using bC lo B0 by (intro square_bounds) simp_all
    moreover have "(B * 2 ^ 64)\<^sup>2 = 2 ^ 128 * B\<^sup>2" by (simp add: power_mult_distrib)
    ultimately show ?thesis by (simp only: mult.assoc)
  qed
  have c': "c = round_sig (b * 18446744073709551616)" by (simp add: c_def)
  have sc: "s = \<lfloor>c\<rfloor>"
    using s T a
    by (auto simp add: getSqrtPriceFromPrice_def Let_def Decimal_div_def Decimal_of_pow10_def
        Decimal_pow2_64 T_def[symmetric] a_def[symmetric] b_def[symmetric] c')
  have S32: "2 ^ 32 \<le> S"
  proof -
    have "(2 ^ 32 :: int) \<le> s" using v by (simp add: MIN_SQRT_PRICE_def)
    then have "real_of_int (2 ^ 32) \<le> real_of_int s" by (simp only: of_int_le_iff)
    then show ?thesis by (simp add: S_def)
  qed
  have S0: "0 \<le> S" using S32 by (rule order_trans[rotated]) simp
  have SC: "S \<le> C" "C < S + 1"
  proof -
    have "of_int \<lfloor>c\<rfloor> \<le> c" "c < of_int \<lfloor>c\<rfloor> + 1" by linarith+
    then have "real_of_rat (of_int s) \<le> real_of_rat c" "real_of_rat c < real_of_rat (of_int s + 1)"
      by (simp_all only: sc of_rat_less_eq of_rat_less)
    then show "S \<le> C" "C < S + 1" by (simp_all add: S_def C_def of_rat_add)
  qed
  have bS2: "(1 / k\<^sup>2) * C\<^sup>2 \<le> S\<^sup>2 \<and> S\<^sup>2 \<le> 1 * C\<^sup>2"
  proof -
    have "S\<^sup>2 \<le> C\<^sup>2" using SC(1) S0 by (rule power_mono)
    moreover have "C\<^sup>2 \<le> k\<^sup>2 * S\<^sup>2"
    proof -
      have "S / 2 ^ 32 \<ge> 1" using S32 by simp
      then have "S + 1 \<le> k * S" by (simp add: k_def algebra_simps)
      then have "C \<le> k * S" using SC(2) by linarith
      moreover have "0 \<le> C" using SC(1) S0 by linarith
      ultimately have "C\<^sup>2 \<le> (k * S)\<^sup>2" by (intro power_mono)
      then show ?thesis by (simp add: power_mult_distrib)
    qed
    moreover have "0 < k\<^sup>2" using k by simp
    ultimately show ?thesis by (simp add: pos_divide_le_eq mult.commute)
  qed
  have s0: "0 \<le> (of_int s :: rat) * of_int s" by simp
  have Sr: "real_of_rat (of_int s * of_int s) = S\<^sup>2"
    by (simp add: S_def of_rat_mult power2_eq_square)
  have bT1: "lo * S\<^sup>2 \<le> T1 \<and> T1 \<le> hi * S\<^sup>2"
    using round_sig_bounds_real[OF s0] by (simp only: Sr lo_def hi_def T1_def t1_def)
  have T10: "0 \<le> T1"
  proof -
    have "0 \<le> lo * S\<^sup>2" using lo by simp
    then show ?thesis using bT1 by linarith
  qed
  then have t10: "0 \<le> t1 * T" using T by (simp add: T1_def)
  have T1r: "real_of_rat (t1 * T) = T1 * Tr" by (simp add: T1_def Tr_def of_rat_mult)
  have bT2: "lo * (T1 * Tr) \<le> T2 \<and> T2 \<le> hi * (T1 * Tr)"
    using round_sig_bounds_real[OF t10] by (simp only: T1r lo_def hi_def T2_def t2_def)
  have T20: "0 \<le> T2"
  proof -
    have "0 \<le> lo * (T1 * Tr)" using lo T10 Tr by simp
    then show ?thesis using bT2 by linarith
  qed
  have P: "0 < P" by (simp add: P_def)
  have t20: "0 \<le> t2 / P" using T20 P by (simp add: T2_def)
  have T2r: "real_of_rat (t2 / P) = T2 / Pr" by (simp add: T2_def P_def Pr_def of_rat_divide)
  have bR: "lo * (T2 / Pr) \<le> R \<and> R \<le> hi * (T2 / Pr)"
    using round_sig_bounds_real[OF t20] by (simp only: T2r lo_def hi_def R_def r_def)
  have res: "getPriceFromSqrtPrice s tokenADecimal tokenBDecimal = Fin r"
    using P
    by (simp add: getPriceFromSqrtPrice_def Let_def Decimal_div_def Decimal_of_pow10_def
        Decimal_pow2_128 T_def[symmetric] t1_def[symmetric] t2_def[symmetric] P_def[symmetric]
        r_def[symmetric])
  have c0': "1 * Q \<le> Q \<and> Q \<le> 1 * Q" by simp
  have c1: "(lo * 1) * Q \<le> A \<and> A \<le> (hi * 1) * Q"
    using lo hi by (intro bound_step[OF conjunct1[OF c0'] conjunct2[OF c0'] conjunct1[OF bA] conjunct2[OF bA]]) simp_all
  have c2: "(lo\<^sup>2 * (lo * 1)) * Q \<le> B\<^sup>2 \<and> B\<^sup>2 \<le> (hi\<^sup>2 * (hi * 1)) * Q"
    by (intro bound_step[OF conjunct1[OF c1] conjunct2[OF c1] conjunct1[OF bB2] conjunct2[OF bB2]]) simp_all
  have c3: "((lo\<^sup>2 * 2 ^ 128) * (lo\<^sup>2 * (lo * 1))) * Q \<le> C\<^sup>2
          \<and> C\<^sup>2 \<le> ((hi\<^sup>2 * 2 ^ 128) * (hi\<^sup>2 * (hi * 1))) * Q"
    by (intro bound_step[OF conjunct1[OF c2] conjunct2[OF c2] conjunct1[OF bC2] conjunct2[OF bC2]]) simp_all
  have c4: "((1 / k\<^sup>2) * ((lo\<^sup>2 * 2 ^ 128) * (lo\<^sup>2 * (lo * 1)))) * Q \<le> S\<^sup>2
          \<and> S\<^sup>2 \<le> (1 * ((hi\<^sup>2 * 2 ^ 128) * (hi\<^sup>2 * (hi * 1)))) * Q"
    by (intro bound_step[OF conjunct1[OF c3] conjunct2[OF c3] conjunct1[OF bS2] conjunct2[OF bS2]]) simp_all
  have c5: "(lo * ((1 / k\<^sup>2) * ((lo\<^sup>2 * 2 ^ 128) * (lo\<^sup>2 * (lo * 1))))) * Q \<le> T1
          \<and> T1 \<le> (hi * (1 * ((hi\<^sup>2 * 2 ^ 128) * (hi\<^sup>2 * (hi * 1))))) * Q"
    using lo hi by (intro bound_step[OF conjunct1[OF c4] conjunct2[OF c4] conjunct1[OF bT1] conjunct2[OF bT1]]) simp_all
  define KL where "KL = lo * ((1 / k\<^sup>2) * ((lo\<^sup>2 * 2 ^ 128) * (lo\<^sup>2 * (lo * 1))))"
  define KU where "KU = hi * (1 * ((hi\<^sup>2 * 2 ^ 128) * (hi\<^sup>2 * (hi * 1))))"
  have QX: "Q * Tr = X" using Tr by (simp add: Q_def)
  have c6: "KL * X \<le> T1 * Tr \<and> T1 * Tr \<le> KU * X"
  proof -
    have "(KL * Q) * Tr \<le> T1 * Tr" "T1 * Tr \<le> (KU * Q) * Tr"
      using c5 Tr by (simp_all only: KL_def KU_def mult_le_cancel_right_pos)
    then show ?thesis by (simp add: mult.assoc QX)
  qed
  have c7: "(lo * KL) * X \<le> T2 \<and> T2 \<le> (hi * KU) * X"
    using lo hi by (intro bound_step[OF conjunct1[OF c6] conjunct2[OF c6] conjunct1[OF bT2] conjunct2[OF bT2]]) simp_all
  have bP: "(1 / Pr) * T2 \<le> T2 / Pr \<and> T2 / Pr \<le> (1 / Pr) * T2" by simp
  have c8: "((1 / Pr) * (lo * KL)) * X \<le> T2 / Pr \<and> T2 / Pr \<le> ((1 / Pr) * (hi * KU)) * X"
    using Pr by (intro bound_step[OF conjunct1[OF c7] conjunct2[OF c7] conjunct1[OF bP] conjunct2[OF bP]]) simp_all
  have c9: "(lo * ((1 / Pr) * (lo * KL))) * X \<le> R \<and> R \<le> (hi * ((1 / Pr) * (hi * KU))) * X"
    using lo hi by (intro bound_step[OF conjunct1[OF c8] conjunct2[OF c8] conjunct1[OF bR] conjunct2[OF bR]]) simp_all
  have n1: "1 - 1 / 2 ^ 30 \<le> lo * ((1 / Pr) * (lo * KL))"
    unfolding KL_def lo_def k_def Pr_def by (simp add: power2_eq_square)
  have n2: "hi * ((1 / Pr) * (hi * KU)) \<le> 1 + 1 / 2 ^ 30"
    unfolding KU_def hi_def Pr_def by (simp add: power2_eq_square)
  have "(1 - 1 / 2 ^ 30) * X \<le> (lo * ((1 / Pr) * (lo * KL))) * X"
    using n1 X by (simp only: mult_le_cancel_right_pos)
  moreover have "(hi * ((1 / Pr) * (hi * KU))) * X \<le> (1 + 1 / 2 ^ 30) * X"
    using n2 X by (simp only: mult_le_cancel_right_pos)
  ultimately have "(1 - 1 / 2 ^ 30) * X \<le> R" "R \<le> (1 + 1 / 2 ^ 30) * X"
    using c9 by linarith+
  then have "X - X / 2 ^ 30 \<le> R" "R \<le> X + X / 2 ^ 30"
    by (simp_all add: left_diff_distrib distrib_right)
  moreover have "X - X / 2 ^ 30 = real_of_rat (price - price / 2 ^ 30)"
    "X + X / 2 ^ 30 = real_of_rat (price + price / 2 ^ 30)"
    by (simp_all add: X_def of_rat_diff of_rat_add of_rat_divide of_rat_power of_rat_mult)
  ultimately have "real_of_rat (price - price / 2 ^ 30) \<le> real_of_rat r"
    "real_of_rat r \<le> real_of_rat (price + price / 2 ^ 30)"
    by (simp_all add: R_def)
  then have "price - price / 2 ^ 30 \<le> r" "r \<le> price + price / 2 ^ 30"
    by (simp_all only: of_rat_less_eq)
  then have "\<bar>r - price\<bar> \<le> price / 2 ^ 30" by (intro abs_leI) linarith+
  then show ?thesis using res by simp
qed

lemma price_round_trip_36:
  "\<exists>price'. getPriceFromSqrtPrice 110680464442257309700 6 6 = Fin price'
             \<and> \<bar>price' - 36\<bar> \<le> 36 / 2 ^ 30"
  using price_round_trip[of 36 6 6 110680464442257309700] getSqrtPriceFromPrice_36
  by (simp add: MIN_SQRT_PRICE_def)

text \<open>
  C8. \<open>getSqrtPriceFromPrice\<close> is \<open>floor(sqrt(price / 10^(decimalsA-decimalsB)) * 2^64)\<close>,
  truncating and never rounding up, and converting back gives a price within a bounded
  relative error. At the price 36 with equal token decimals the root is 6 and the product
  \<open>6 * 2^64 = 110680464442257309696\<close> has 21 digits: decimal.js rounds it to 20
  significant digits, half up, before \<open>floor\<close> is applied, and the code returns
  110680464442257309700, above the floor of the formula. Converted back, that sqrt-price
  gives 36.000000000000000004. The round trip itself stays within the bound of
  \<open>price_round_trip\<close>; what fails is the direction of the rounding.
\<close>

theorem getSqrtPriceFromPrice_rounds_up:
  "getSqrtPriceFromPrice 36 6 6 = Inr 110680464442257309700
   \<and> priceToSqrtPrice_spec 36 6 6 = 110680464442257309696
   \<and> getPriceFromSqrtPrice 110680464442257309700 6 6 = Fin (36000000000000000004 / 10 ^ 18)"
  using getSqrtPriceFromPrice_36 priceToSqrtPrice_spec_36 getPriceFromSqrtPrice_36 by simp


section \<open>Price impact\<close>

text \<open>
  C10. \<open>getPriceImpact\<close> divides by \<open>idealAmount\<close> without a zero guard: for
  \<open>idealAmount = 0\<close> it does not raise and returns no error value but a non-finite number,
  NaN when \<open>actualAmount\<close> is 0 as well, and otherwise an infinity whose sign is that of
  \<open>idealAmount - actualAmount\<close>.
\<close>

theorem getPriceImpact_zero_ideal:
  "getPriceImpact actual 0 = (if actual = 0 then NaN else if 0 < actual then NInf else PInf)"
  by (simp add: getPriceImpact_def BN_sub_def Decimal_div_def)


section \<open>Unclaimed fees and rewards\<close>

subsection \<open>Byte arrays\<close>

lemma BN_of_bytes_snoc: "BN_of_bytes (bs @ [b]) = BN_of_bytes bs * 256 + uint b"
  by (simp add: BN_of_bytes_def)

lemma BN_of_bytes_rev: "BN_of_bytes (rev bs) = int (le_value bs)"
  by (induction bs) (simp_all add: BN_of_bytes_snoc BN_of_bytes_def)

lemma le_value_bound: "le_value bs < 256 ^ length bs"
proof (induction bs)
  case Nil
  show ?case by simp
next
  case (Cons b bs)
  have "unat b < 256" using unsigned_less[of b, where 'a=nat] by simp
  moreover have "le_value bs + 1 \<le> 256 ^ length bs" using Cons by simp
  then have "256 * (le_value bs + 1) \<le> 256 * 256 ^ length bs" by (rule mult_le_mono2)
  ultimately show ?case by simp
qed

lemma le_value_append: "le_value (xs @ ys) = le_value xs + 256 ^ length xs * le_value ys"
  by (induction xs) (simp_all add: algebra_simps)

lemma le_value_replicate_zero: "le_value (replicate n 0) = 0"
  by (induction n) simp_all

lemma uint_word_of_nat_256: "uint (word_of_nat n :: 256 word) = int n mod 2 ^ 256"
proof -
  have "uint (word_of_nat n :: 256 word) = int (unat (word_of_nat n :: 256 word))"
    by (rule uint_nat)
  also have "unat (word_of_nat n :: 256 word) = n mod 2 ^ LENGTH(256)"
    by (rule unat_of_nat)
  finally show ?thesis by (simp add: of_nat_mod)
qed

lemma ledger_wrapping_sub_int:
  "int (ledger_wrapping_sub acc chk) = (int acc - int chk) mod 2 ^ 256"
proof -
  have "int (ledger_wrapping_sub acc chk) = uint ((word_of_nat acc :: 256 word) - word_of_nat chk)"
    unfolding ledger_wrapping_sub_def by (rule uint_nat[symmetric])
  also have "\<dots> = (uint (word_of_nat acc :: 256 word) - uint (word_of_nat chk :: 256 word)) mod 2 ^ LENGTH(256)"
    by (rule uint_word_ariths)
  also have "\<dots> = (int acc mod 2 ^ 256 - int chk mod 2 ^ 256) mod 2 ^ 256"
    by (simp only: uint_word_of_nat_256 len_of_numeral_defs) simp
  also have "\<dots> = (int acc - int chk) mod 2 ^ 256"
    by (rule mod_diff_eq)
  finally show ?thesis .
qed


lemma le_value_replicate_255: "le_value (replicate n 255) + 1 = 256 ^ n"
  by (induction n) simp_all

subsection \<open>The function in closed form\<close>

lemma totalPositionLiquidity_eq:
  "totalPositionLiquidity p = int (positionTotalLiquidity p)"
  by (simp add: totalPositionLiquidity_def positionTotalLiquidity_def BN_add_def)

lemma feeAPerTokenStored_eq:
  "feeAPerTokenStored poolState positionState =
     int (le_value (feeAPerLiquidity poolState)) - int (le_value (feeAPerTokenCheckpoint positionState))"
  by (simp add: feeAPerTokenStored_def BN_sub_def BN_of_bytes_rev)

lemma feeBPerTokenStored_eq:
  "feeBPerTokenStored poolState positionState =
     int (le_value (feeBPerLiquidity poolState)) - int (le_value (feeBPerTokenCheckpoint positionState))"
  by (simp add: feeBPerTokenStored_def BN_sub_def BN_of_bytes_rev)

lemma getUnClaimReward_cases:
  "getUnClaimReward poolState positionState =
     (if int (positionTotalLiquidity positionState) * feeAPerTokenStored poolState positionState < 0
         \<or> int (positionTotalLiquidity positionState) * feeBPerTokenStored poolState positionState < 0
      then Inl AssertionFailed
      else Inr \<lparr> feeTokenA = pendingFee_spec (positionTotalLiquidity positionState)
                     (int (le_value (feeAPerLiquidity poolState)))
                     (int (le_value (feeAPerTokenCheckpoint positionState)))
                     (feeAPending positionState),
                 feeTokenB = pendingFee_spec (positionTotalLiquidity positionState)
                     (int (le_value (feeBPerLiquidity poolState)))
                     (int (le_value (feeBPerTokenCheckpoint positionState)))
                     (feeBPending positionState),
                 rewards = map (\<lambda>item. int (rewardPendings item)) (rewardInfos positionState) \<rparr>)"
  by (simp add: getUnClaimReward_def BN_shrn_def BN_mul_def BN_add_def totalPositionLiquidity_eq
      pendingFee_spec_def feeAPerTokenStored_eq feeBPerTokenStored_eq)

lemma example_values:
  "le_value (feeAPerLiquidity example_pool) = 7 * 2 ^ 128"
  "le_value (feeBPerLiquidity example_pool) = 9 * 2 ^ 128"
  "le_value (feeAPerTokenCheckpoint example_position) = 3 * 2 ^ 128"
  "le_value (feeBPerTokenCheckpoint example_position) = 4 * 2 ^ 128"
  "positionTotalLiquidity example_position = 10"
  "feeAPending example_position = 11"
  "feeBPending example_position = 12"
  "map (\<lambda>item. int (rewardPendings item)) (rewardInfos example_position) = [5]"
  by (simp_all add: example_pool_def example_position_def le_value_append le_value_replicate_zero
      positionTotalLiquidity_def)

lemma getUnClaimReward_example:
  "getUnClaimReward example_pool example_position
     = Inr \<lparr> feeTokenA = 51, feeTokenB = 62, rewards = [5] \<rparr>"
  by (simp add: getUnClaimReward_cases feeAPerTokenStored_eq feeBPerTokenStored_eq example_values
      pendingFee_spec_def LIQUIDITY_SCALE_def)

lemma wrapped_values:
  "le_value (feeAPerLiquidity wrapped_pool) = 5"
  "le_value (feeAPerTokenCheckpoint wrapped_position) = 2 ^ 256 - 1"
  "positionTotalLiquidity wrapped_position = 10"
proof -
  show "le_value (feeAPerLiquidity wrapped_pool) = 5"
    by (simp add: wrapped_pool_def le_value_replicate_zero)
  show "le_value (feeAPerTokenCheckpoint wrapped_position) = 2 ^ 256 - 1"
    using le_value_replicate_255[of 32] by (simp add: wrapped_position_def)
  show "positionTotalLiquidity wrapped_position = 10"
    by (simp add: wrapped_position_def example_position_def positionTotalLiquidity_def)
qed

subsection \<open>Pending fees\<close>

text \<open>
  C3. \<open>getUnClaimReward\<close> returns
  \<open>feeTokenA = positionTotalLiquidity * (pool.feeAPerLiquidity - position.feeAPerTokenCheckpoint)
  >> LIQUIDITY_SCALE + position.feeAPending\<close>, and symmetrically \<open>feeTokenB\<close>, with
  \<open>positionTotalLiquidity = unlockedLiquidity + vestedLiquidity + permanentlyLockedLiquidity\<close>:
  every result it returns has these two values, and it returns a result for every pair of
  snapshots whose accumulators are not below the position's checkpoints.
\<close>

theorem getUnClaimReward_pending_fees:
  "(\<forall>r. getUnClaimReward poolState positionState = Inr r \<longrightarrow>
        feeTokenA r = pendingFee_spec (positionTotalLiquidity positionState)
                        (int (le_value (feeAPerLiquidity poolState)))
                        (int (le_value (feeAPerTokenCheckpoint positionState)))
                        (feeAPending positionState)
      \<and> feeTokenB r = pendingFee_spec (positionTotalLiquidity positionState)
                        (int (le_value (feeBPerLiquidity poolState)))
                        (int (le_value (feeBPerTokenCheckpoint positionState)))
                        (feeBPending positionState))
   \<and> (le_value (feeAPerTokenCheckpoint positionState) \<le> le_value (feeAPerLiquidity poolState)
      \<and> le_value (feeBPerTokenCheckpoint positionState) \<le> le_value (feeBPerLiquidity poolState)
      \<longrightarrow> (\<exists>r. getUnClaimReward poolState positionState = Inr r))"
proof (intro conjI allI impI)
  fix r
  assume "getUnClaimReward poolState positionState = Inr r"
  then have r: "r = \<lparr> feeTokenA = pendingFee_spec (positionTotalLiquidity positionState)
                     (int (le_value (feeAPerLiquidity poolState)))
                     (int (le_value (feeAPerTokenCheckpoint positionState)))
                     (feeAPending positionState),
                 feeTokenB = pendingFee_spec (positionTotalLiquidity positionState)
                     (int (le_value (feeBPerLiquidity poolState)))
                     (int (le_value (feeBPerTokenCheckpoint positionState)))
                     (feeBPending positionState),
                 rewards = map (\<lambda>item. int (rewardPendings item)) (rewardInfos positionState) \<rparr>"
    by (simp add: getUnClaimReward_cases split: if_splits)
  show "feeTokenA r = pendingFee_spec (positionTotalLiquidity positionState)
                        (int (le_value (feeAPerLiquidity poolState)))
                        (int (le_value (feeAPerTokenCheckpoint positionState)))
                        (feeAPending positionState)"
    by (subst r) simp
  show "feeTokenB r = pendingFee_spec (positionTotalLiquidity positionState)
                        (int (le_value (feeBPerLiquidity poolState)))
                        (int (le_value (feeBPerTokenCheckpoint positionState)))
                        (feeBPending positionState)"
    by (subst r) simp
next
  assume h: "le_value (feeAPerTokenCheckpoint positionState) \<le> le_value (feeAPerLiquidity poolState)
      \<and> le_value (feeBPerTokenCheckpoint positionState) \<le> le_value (feeBPerLiquidity poolState)"
  then have "0 \<le> feeAPerTokenStored poolState positionState"
    and "0 \<le> feeBPerTokenStored poolState positionState"
    by (simp_all add: feeAPerTokenStored_eq feeBPerTokenStored_eq)
  then have "\<not> int (positionTotalLiquidity positionState) * feeAPerTokenStored poolState positionState < 0"
    and "\<not> int (positionTotalLiquidity positionState) * feeBPerTokenStored poolState positionState < 0"
    by (simp_all add: not_less)
  then show "\<exists>r. getUnClaimReward poolState positionState = Inr r"
    by (simp add: getUnClaimReward_cases)
qed

theorem getUnClaimReward_pending_fees_witness:
  "getUnClaimReward example_pool example_position
     = Inr \<lparr> feeTokenA = 51, feeTokenB = 62, rewards = [5] \<rparr>
   \<and> le_value (feeAPerTokenCheckpoint example_position) \<le> le_value (feeAPerLiquidity example_pool)
   \<and> le_value (feeBPerTokenCheckpoint example_position) \<le> le_value (feeBPerLiquidity example_pool)
   \<and> pendingFee_spec 10 (7 * 2 ^ 128) (3 * 2 ^ 128) 11 = 51
   \<and> pendingFee_spec 10 (9 * 2 ^ 128) (4 * 2 ^ 128) 12 = 62"
proof -
  have le: "le_value (feeAPerTokenCheckpoint example_position) \<le> le_value (feeAPerLiquidity example_pool)"
    "le_value (feeBPerTokenCheckpoint example_position) \<le> le_value (feeBPerLiquidity example_pool)"
    by (simp_all add: example_values)
  have v: "pendingFee_spec 10 (7 * 2 ^ 128) (3 * 2 ^ 128) 11 = 51"
    "pendingFee_spec 10 (9 * 2 ^ 128) (4 * 2 ^ 128) 12 = 62"
    by (simp_all add: pendingFee_spec_def LIQUIDITY_SCALE_def)
  from getUnClaimReward_pending_fees[of example_pool example_position] le
  obtain r where r: "getUnClaimReward example_pool example_position = Inr r"
    and a: "feeTokenA r = 51" and b: "feeTokenB r = 62"
    using v by (auto simp: example_values)
  have "rewards r = [5]"
    using r by (auto simp: getUnClaimReward_cases example_values split: if_splits)
  with a b have "r = \<lparr> feeTokenA = 51, feeTokenB = 62, rewards = [5] \<rparr>" by simp
  with r le v show ?thesis by simp
qed


subsection \<open>The accumulator difference\<close>

lemma signed_difference_vs_modular:
  assumes a: "a < 2 ^ 256" and c: "c < 2 ^ 256"
  shows "(int a - int c = int (ledger_wrapping_sub a c)) \<longleftrightarrow> c \<le> a"
proof (cases "c \<le> a")
  case True
  have "int a - int c < 2 ^ 256" using a c by simp
  then have "(int a - int c) mod 2 ^ 256 = int a - int c" using True by simp
  then show ?thesis using True by (simp add: ledger_wrapping_sub_int)
next
  case False
  then have "int a - int c < 0" by simp
  moreover have "0 \<le> int (ledger_wrapping_sub a c)" by simp
  ultimately show ?thesis using False by linarith
qed

text \<open>
  C7, as the code has it. The accumulator difference is the exact signed difference of the two
  stored 256-bit values, taken on unbounded integers. It is non-negative, and equal to the
  ledger program's modular difference, exactly when the stored accumulator is not below the
  checkpoint.
\<close>

theorem feePerTokenStored_signed_difference:
  assumes "length (feeAPerLiquidity poolState) = 32"
    and "length (feeAPerTokenCheckpoint positionState) = 32"
    and "length (feeBPerLiquidity poolState) = 32"
    and "length (feeBPerTokenCheckpoint positionState) = 32"
  shows "feeAPerTokenStored poolState positionState
           = int (le_value (feeAPerLiquidity poolState))
             - int (le_value (feeAPerTokenCheckpoint positionState))
       \<and> (0 \<le> feeAPerTokenStored poolState positionState
            \<longleftrightarrow> le_value (feeAPerTokenCheckpoint positionState) \<le> le_value (feeAPerLiquidity poolState))
       \<and> (feeAPerTokenStored poolState positionState
             = int (ledger_wrapping_sub (le_value (feeAPerLiquidity poolState))
                      (le_value (feeAPerTokenCheckpoint positionState)))
            \<longleftrightarrow> le_value (feeAPerTokenCheckpoint positionState) \<le> le_value (feeAPerLiquidity poolState))
       \<and> feeBPerTokenStored poolState positionState
           = int (le_value (feeBPerLiquidity poolState))
             - int (le_value (feeBPerTokenCheckpoint positionState))
       \<and> (0 \<le> feeBPerTokenStored poolState positionState
            \<longleftrightarrow> le_value (feeBPerTokenCheckpoint positionState) \<le> le_value (feeBPerLiquidity poolState))
       \<and> (feeBPerTokenStored poolState positionState
             = int (ledger_wrapping_sub (le_value (feeBPerLiquidity poolState))
                      (le_value (feeBPerTokenCheckpoint positionState)))
            \<longleftrightarrow> le_value (feeBPerTokenCheckpoint positionState) \<le> le_value (feeBPerLiquidity poolState))"
proof -
  have b: "le_value (feeAPerLiquidity poolState) < 2 ^ 256"
    "le_value (feeAPerTokenCheckpoint positionState) < 2 ^ 256"
    "le_value (feeBPerLiquidity poolState) < 2 ^ 256"
    "le_value (feeBPerTokenCheckpoint positionState) < 2 ^ 256"
    using le_value_bound[of "feeAPerLiquidity poolState"]
      le_value_bound[of "feeAPerTokenCheckpoint positionState"]
      le_value_bound[of "feeBPerLiquidity poolState"]
      le_value_bound[of "feeBPerTokenCheckpoint positionState"] assms
    by simp_all
  show ?thesis
    using signed_difference_vs_modular[OF b(1) b(2)] signed_difference_vs_modular[OF b(3) b(4)]
    by (simp add: feeAPerTokenStored_eq feeBPerTokenStored_eq)
qed

theorem feePerTokenStored_signed_difference_witness:
  "length (feeAPerLiquidity example_pool) = 32
   \<and> length (feeAPerTokenCheckpoint example_position) = 32
   \<and> length (feeBPerLiquidity example_pool) = 32
   \<and> length (feeBPerTokenCheckpoint example_position) = 32
   \<and> feeAPerTokenStored example_pool example_position = 4 * 2 ^ 128
   \<and> ledger_wrapping_sub (7 * 2 ^ 128) (3 * 2 ^ 128) = 4 * 2 ^ 128
   \<and> feeBPerTokenStored example_pool example_position = 5 * 2 ^ 128
   \<and> ledger_wrapping_sub (9 * 2 ^ 128) (4 * 2 ^ 128) = 5 * 2 ^ 128"
proof -
  have len: "length (feeAPerLiquidity example_pool) = 32"
    "length (feeAPerTokenCheckpoint example_position) = 32"
    "length (feeBPerLiquidity example_pool) = 32"
    "length (feeBPerTokenCheckpoint example_position) = 32"
    by (simp_all add: example_pool_def example_position_def)
  show ?thesis
    using feePerTokenStored_signed_difference[OF len] len
    by (simp add: example_values)
qed

text \<open>
  C7, as stated, fails: with a stored accumulator that has wrapped below the checkpoint the
  computed difference is \<open>6 - 2^256\<close>, negative, where the modular difference is 6.
\<close>

theorem feeAPerTokenStored_wrapped_counterexample:
  "length (feeAPerLiquidity wrapped_pool) = 32
   \<and> length (feeAPerTokenCheckpoint wrapped_position) = 32
   \<and> feeAPerTokenStored wrapped_pool wrapped_position = 6 - 2 ^ 256
   \<and> feeAPerTokenStored wrapped_pool wrapped_position < 0
   \<and> ledger_wrapping_sub (le_value (feeAPerLiquidity wrapped_pool))
         (le_value (feeAPerTokenCheckpoint wrapped_position)) = 6"
proof -
  have len: "length (feeAPerLiquidity wrapped_pool) = 32"
    "length (feeAPerTokenCheckpoint wrapped_position) = 32"
    by (simp_all add: wrapped_pool_def wrapped_position_def)
  have d: "feeAPerTokenStored wrapped_pool wrapped_position = 6 - 2 ^ 256"
    by (simp add: feeAPerTokenStored_eq wrapped_values)
  have "int (ledger_wrapping_sub 5 (2 ^ 256 - 1)) = 6"
    by (simp add: ledger_wrapping_sub_int)
  then have m: "ledger_wrapping_sub 5 (2 ^ 256 - 1) = 6" by linarith
  show ?thesis using len d m by (simp add: wrapped_values)
qed

text \<open>On that pair the product with the position's liquidity is negative, and its shift
  fails the assertion of \<open>shrn\<close>: no fee is returned at all.\<close>

lemma getUnClaimReward_wrapped_fails:
  "getUnClaimReward wrapped_pool wrapped_position = Inl AssertionFailed"
proof -
  have "feeAPerTokenStored wrapped_pool wrapped_position = 6 - 2 ^ 256"
    by (simp add: feeAPerTokenStored_eq wrapped_values)
  then show ?thesis by (simp add: getUnClaimReward_cases wrapped_values)
qed


subsection \<open>Rewards\<close>

text \<open>
  C6, as the code has it. For every reward slot of the position, in slot order, the reward
  returned is that slot's pending balance \<open>rewardPendings\<close> and nothing else: no accumulator
  and no checkpoint enters it.
\<close>

theorem getUnClaimReward_rewards_are_pendings:
  assumes "getUnClaimReward poolState positionState = Inr r"
  shows "rewards r = map (\<lambda>item. int (rewardPendings item)) (rewardInfos positionState)
       \<and> length (rewards r) = length (rewardInfos positionState)
       \<and> (\<forall>i < length (rewardInfos positionState).
             rewards r ! i = int (rewardPendings (rewardInfos positionState ! i)))"
  using assms by (auto simp: getUnClaimReward_cases split: if_splits)

theorem getUnClaimReward_rewards_are_pendings_witness:
  "getUnClaimReward example_pool example_position
     = Inr \<lparr> feeTokenA = 51, feeTokenB = 62, rewards = [5] \<rparr>
   \<and> rewards \<lparr> feeTokenA = 51, feeTokenB = 62, rewards = [5] \<rparr>
       = map (\<lambda>item. int (rewardPendings item)) (rewardInfos example_position)
   \<and> rewards \<lparr> feeTokenA = 51, feeTokenB = 62, rewards = [5] \<rparr> ! 0
       = int (rewardPendings (rewardInfos example_position ! 0))"
  using getUnClaimReward_rewards_are_pendings[OF getUnClaimReward_example] getUnClaimReward_example
  by (simp add: example_position_def)

text \<open>
  C6, as stated, fails: with a reward accumulator \<open>2^128\<close> above the slot's checkpoint and a
  position liquidity of 10, the checkpoint pattern gives \<open>10 + 5 = 15\<close>, and the code returns
  the pending balance 5.
\<close>

theorem getUnClaimReward_reward_counterexample:
  "getUnClaimReward example_pool example_position
     = Inr \<lparr> feeTokenA = 51, feeTokenB = 62, rewards = [5] \<rparr>
   \<and> pendingReward_spec example_pool example_position 0 = 15"
proof -
  have "le_value (rewardPerTokenStored (poolRewardInfos example_pool ! 0)) = 2 ^ 128"
    by (simp add: example_pool_def le_value_append le_value_replicate_zero)
  moreover have "le_value (rewardPerTokenCheckpoint (rewardInfos example_position ! 0)) = 0"
    by (simp add: example_position_def le_value_replicate_zero)
  moreover have "rewardPendings (rewardInfos example_position ! 0) = 5"
    by (simp add: example_position_def)
  ultimately have "pendingReward_spec example_pool example_position 0 = 15"
    by (simp add: pendingReward_spec_def pendingFee_spec_def example_values LIQUIDITY_SCALE_def)
  then show ?thesis using getUnClaimReward_example by simp
qed




section \<open>Quotes\<close>

subsection \<open>The function in closed form\<close>

lemma tradeFeeNumerator_eq:
  "tradeFeeNumerator h fees period =
     (if 0 \<le> feeNumerator h fees period then Inr MAX_FEE_NUMERATOR else Inl TypeError)"
  by (simp add: tradeFeeNumerator_def BN_gt_number_def Let_def)

lemma feeNumerator_ignores_dynamicFee:
  "feeNumerator h (fees \<lparr> dynamicFee := d \<rparr>) period = feeNumerator h fees period"
  by (simp add: feeNumerator_def)

lemma tradeFeeNumerator_ignores_dynamicFee:
  "tradeFeeNumerator h (fees \<lparr> dynamicFee := d \<rparr>) period = tradeFeeNumerator h fees period"
  by (simp add: tradeFeeNumerator_eq feeNumerator_ignores_dynamicFee)

lemma fee_cap_is_half: "2 * MAX_FEE_NUMERATOR = FEE_DENOMINATOR"
  by (simp add: MAX_FEE_NUMERATOR_def FEE_DENOMINATOR_def)

lemma getPeriod_before:
  "cp < activationPoint poolState \<Longrightarrow>
   getPeriod poolState cp = Inr (int (numberOfPeriod (poolFees poolState)))"
  by (simp add: getPeriod_def)

lemma getQuote_eq:
  "getQuote h w params =
     (case poolAccounts w (pool params) of
        None \<Rightarrow> Inl InvariantViolation
      | Some poolState \<Rightarrow>
          (case getPeriod poolState (currentPoint w poolState) of
             Inl e \<Rightarrow> Inl e
           | Inr period \<Rightarrow>
               (case tradeFeeNumerator h (poolFees poolState) period of
                  Inl e \<Rightarrow> Inl e
                | Inr numerator \<Rightarrow>
                    Inr \<lparr> actualAmount =
                            fst (calculateFee h
                                   (calculateSwap h (inAmount params) (int (sqrtPrice poolState))
                                      (int (liquidity poolState))
                                      (tokenAMint poolState = inputTokenMint params))
                                   numerator),
                          totalFee =
                            snd (calculateFee h
                                   (calculateSwap h (inAmount params) (int (sqrtPrice poolState))
                                      (int (liquidity poolState))
                                      (tokenAMint poolState = inputTokenMint params))
                                   numerator) \<rparr>)))"
  by (simp add: getQuote_def fetchPoolState_def Let_def split_beta split: option.splits sum.splits)

subsection \<open>The example pool\<close>

lemma example_fee_fields:
  "feeSchedulerMode (poolFees example_pool) = 0"
  "cliffFeeNumerator (poolFees example_pool) = 1000000"
  "numberOfPeriod (poolFees example_pool) = 10"
  "reductionFactor (poolFees example_pool) = 2"
  "periodFrequency (poolFees example_pool) = 10"
  "initialize (dynamicFee (poolFees example_pool)) = 1"
  "volatilityAccumulator (dynamicFee (poolFees example_pool)) = 100"
  "binStep (dynamicFee (poolFees example_pool)) = 10"
  "variableFeeControl (dynamicFee (poolFees example_pool)) = 1000"
  "activationType example_pool = 1"
  "activationPoint example_pool = 1000"
  "sqrtPrice example_pool = 2 ^ 64"
  "liquidity example_pool = 10 ^ 12 * 2 ^ 64"
  "tokenAMint example_pool = replicate 32 1"
  by (simp_all add: example_pool_def)

lemma flat_fee_fields:
  "feeSchedulerMode (poolFees flat_pool) = 0"
  "cliffFeeNumerator (poolFees flat_pool) = 1000000"
  "numberOfPeriod (poolFees flat_pool) = 0"
  "reductionFactor (poolFees flat_pool) = 0"
  "periodFrequency (poolFees flat_pool) = 0"
  "activationType flat_pool = 1"
  "activationPoint flat_pool = 1000"
  "sqrtPrice flat_pool = 2 ^ 64"
  "liquidity flat_pool = 10 ^ 12 * 2 ^ 64"
  "tokenAMint flat_pool = replicate 32 1"
  by (simp_all add: flat_pool_def example_pool_def)

lemma example_swap: "spec_calculateSwap (10 ^ 9) (2 ^ 64) (10 ^ 12 * 2 ^ 64) True = 999000999"
  by (simp add: spec_calculateSwap_def MIN_SQRT_PRICE_def MAX_SQRT_PRICE_def Let_def floor_eq_iff)

lemma example_base_numerators:
  "feeNumerator (spec_helpers 0 100) (poolFees example_pool) 10 = 999980"
  "feeNumerator (spec_helpers 0 100) (poolFees example_pool) 5 = 999990"
  "feeNumerator (spec_helpers 0 100) (poolFees example_pool) 0 = 1000000"
  "feeNumerator (spec_helpers 0 100) (poolFees flat_pool) 0 = 1000000"
  by (simp_all add: feeNumerator_def spec_helpers_def spec_getBaseFeeNumerator_def
      example_fee_fields flat_fee_fields)

lemma example_numerators:
  "tradeFeeNumerator (spec_helpers 0 100) (poolFees example_pool) 10 = Inr 500000000"
  "tradeFeeNumerator (spec_helpers 0 100) (poolFees example_pool) 5 = Inr 500000000"
  "tradeFeeNumerator (spec_helpers 0 100) (poolFees flat_pool) 0 = Inr 500000000"
  by (simp_all add: tradeFeeNumerator_eq example_base_numerators MAX_FEE_NUMERATOR_def)

lemma example_periods:
  "getPeriod example_pool 500 = Inr 10"
  "getPeriod example_pool 1055 = Inr 5"
  "getPeriod flat_pool 500 = Inr 0"
  "getPeriod flat_pool 1055 = Inl AssertionFailed"
  by (simp_all add: getPeriod_def example_fee_fields flat_fee_fields BN_div_def BN_sub_def)

lemma example_fee: "calculateFee (spec_helpers 0 100) 999000999 500000000 = (499500500, 499500499)"
  by (simp add: spec_helpers_def spec_calculateFee_def FEE_DENOMINATOR_def Let_def)

lemma example_quote_before:
  "getQuote (spec_helpers 0 100) world_before quote_params
     = Inr \<lparr> actualAmount = 499500500, totalFee = 499500499 \<rparr>"
proof -
  have cp: "currentPoint world_before example_pool = 500"
    by (simp add: currentPoint_def world_before_def example_fee_fields)
  have acc: "poolAccounts world_before (pool quote_params) = Some example_pool"
    by (simp add: world_before_def quote_params_def)
  have sw: "calculateSwap (spec_helpers 0 100) (inAmount quote_params) (int (sqrtPrice example_pool))
              (int (liquidity example_pool)) (tokenAMint example_pool = inputTokenMint quote_params)
            = 999000999"
    using example_swap by (simp add: spec_helpers_def quote_params_def example_fee_fields)
  show ?thesis
    by (simp add: getQuote_eq acc cp example_periods sw example_numerators example_fee)
qed

lemma example_quote_during:
  "getQuote (spec_helpers 0 100) world_during quote_params
     = Inr \<lparr> actualAmount = 499500500, totalFee = 499500499 \<rparr>"
proof -
  have cp: "currentPoint world_during example_pool = 1055"
    by (simp add: currentPoint_def world_during_def world_before_def example_fee_fields)
  have acc: "poolAccounts world_during (pool quote_params) = Some example_pool"
    by (simp add: world_during_def world_before_def quote_params_def)
  have sw: "calculateSwap (spec_helpers 0 100) (inAmount quote_params) (int (sqrtPrice example_pool))
              (int (liquidity example_pool)) (tokenAMint example_pool = inputTokenMint quote_params)
            = 999000999"
    using example_swap by (simp add: spec_helpers_def quote_params_def example_fee_fields)
  show ?thesis
    by (simp add: getQuote_eq acc cp example_periods sw example_numerators example_fee)
qed

lemma flat_quote_before:
  "getQuote (spec_helpers 0 100) flat_world_before quote_params
     = Inr \<lparr> actualAmount = 499500500, totalFee = 499500499 \<rparr>"
proof -
  have cp: "currentPoint flat_world_before flat_pool = 500"
    by (simp add: currentPoint_def flat_world_before_def flat_fee_fields)
  have acc: "poolAccounts flat_world_before (pool quote_params) = Some flat_pool"
    by (simp add: flat_world_before_def quote_params_def)
  have sw: "calculateSwap (spec_helpers 0 100) (inAmount quote_params) (int (sqrtPrice flat_pool))
              (int (liquidity flat_pool)) (tokenAMint flat_pool = inputTokenMint quote_params)
            = 999000999"
    using example_swap by (simp add: spec_helpers_def quote_params_def flat_fee_fields)
  show ?thesis
    by (simp add: getQuote_eq acc cp example_periods sw example_numerators example_fee)
qed

lemma flat_quote_during:
  "getQuote (spec_helpers 0 100) flat_world_during quote_params = Inl AssertionFailed"
proof -
  have cp: "currentPoint flat_world_during flat_pool = 1055"
    by (simp add: currentPoint_def flat_world_during_def flat_world_before_def flat_fee_fields)
  have acc: "poolAccounts flat_world_during (pool quote_params) = Some flat_pool"
    by (simp add: flat_world_during_def flat_world_before_def quote_params_def)
  show ?thesis
    by (simp add: getQuote_eq acc cp example_periods)
qed

subsection \<open>The dynamic fee\<close>

text \<open>
  C1. With the dynamic fee enabled, the numerator \<open>getQuote\<close> applies is
  \<open>min(baseFeeNumerator + surcharge, MAX_FEE_NUMERATOR)\<close>, the surcharge being
  \<open>variableFeeControl * (volatilityAccumulator * binStep)^2 / normalizationConstant\<close>, and
  the cap is half of \<open>FEE_DENOMINATOR\<close>. On the example pool, read before its activation
  point, the period is 10, the base numerator 999980 and the surcharge 10000000: the claim's
  numerator is 10999980, a fee of 10988991 on the gross output 999000999. The code drops the
  sum of the two and then, comparing a \<open>BN\<close> with a JavaScript number, takes the cap for
  every non-negative base numerator: it hands 500000000 to \<open>calculateFee\<close>, a fee of
  499500499. The cap is 50 percent, as claimed.
\<close>

theorem getQuote_drops_dynamic_fee:
  "initialize (dynamicFee (poolFees example_pool)) \<noteq> 0
   \<and> getPeriod example_pool (currentPoint world_before example_pool) = Inr 10
   \<and> feeNumerator (spec_helpers 0 100) (poolFees example_pool) 10 = 999980
   \<and> spec_getDynamicFeeNumerator 100 100 10 1000 = 10000000
   \<and> cappedFeeNumerator_spec 999980 10000000 = 10999980
   \<and> spec_calculateFee 999000999 10999980 = (988012008, 10988991)
   \<and> tradeFeeNumerator (spec_helpers 0 100) (poolFees example_pool) 10 = Inr 500000000
   \<and> getQuote (spec_helpers 0 100) world_before quote_params
       = Inr \<lparr> actualAmount = 499500500, totalFee = 499500499 \<rparr>
   \<and> 2 * MAX_FEE_NUMERATOR = FEE_DENOMINATOR"
proof -
  have cp: "currentPoint world_before example_pool = 500"
    by (simp add: currentPoint_def world_before_def example_fee_fields)
  have spec: "spec_getDynamicFeeNumerator 100 100 10 1000 = 10000000"
    "cappedFeeNumerator_spec 999980 10000000 = 10999980"
    "spec_calculateFee 999000999 10999980 = (988012008, 10988991)"
    by (simp_all add: spec_getDynamicFeeNumerator_def cappedFeeNumerator_spec_def
        spec_calculateFee_def MAX_FEE_NUMERATOR_def FEE_DENOMINATOR_def Let_def)
  show ?thesis
    using spec example_quote_before fee_cap_is_half
    by (simp add: cp example_periods example_numerators example_base_numerators
        example_fee_fields)
qed

subsection \<open>Before the activation point\<close>

text \<open>
  C2, as the code has it. At a current point strictly before the pool's activation point the
  scheduler uses \<open>period = numberOfPeriod\<close>, the fully decayed end of the schedule:
  determining the period does not fail on such a time input, the base fee numerator is the
  one of that last period, and the quote is the one computed at that period.
\<close>

theorem getQuote_before_activation:
  assumes "poolAccounts w (pool params) = Some poolState"
    and "currentPoint w poolState < activationPoint poolState"
  shows "getPeriod poolState (currentPoint w poolState)
           = Inr (int (numberOfPeriod (poolFees poolState)))
       \<and> getQuote h w params
           = (case tradeFeeNumerator h (poolFees poolState)
                     (int (numberOfPeriod (poolFees poolState))) of
                Inl e \<Rightarrow> Inl e
              | Inr numerator \<Rightarrow>
                  Inr \<lparr> actualAmount =
                          fst (calculateFee h
                                 (calculateSwap h (inAmount params) (int (sqrtPrice poolState))
                                    (int (liquidity poolState))
                                    (tokenAMint poolState = inputTokenMint params))
                                 numerator),
                        totalFee =
                          snd (calculateFee h
                                 (calculateSwap h (inAmount params) (int (sqrtPrice poolState))
                                    (int (liquidity poolState))
                                    (tokenAMint poolState = inputTokenMint params))
                                 numerator) \<rparr>)
       \<and> feeNumerator h (poolFees poolState) (int (numberOfPeriod (poolFees poolState)))
           = getBaseFeeNumerator h (feeSchedulerMode (poolFees poolState))
               (int (cliffFeeNumerator (poolFees poolState)))
               (int (numberOfPeriod (poolFees poolState)))
               (int (reductionFactor (poolFees poolState)))"
  using assms by (simp add: getQuote_eq getPeriod_before feeNumerator_def)

theorem getQuote_before_activation_witness:
  "poolAccounts world_before (pool quote_params) = Some example_pool
   \<and> currentPoint world_before example_pool < activationPoint example_pool
   \<and> getPeriod example_pool (currentPoint world_before example_pool) = Inr 10
   \<and> feeNumerator (spec_helpers 0 100) (poolFees example_pool) 10 = 999980
   \<and> getQuote (spec_helpers 0 100) world_before quote_params
       = Inr \<lparr> actualAmount = 499500500, totalFee = 499500499 \<rparr>"
proof -
  have acc: "poolAccounts world_before (pool quote_params) = Some example_pool"
    by (simp add: world_before_def quote_params_def)
  have cp: "currentPoint world_before example_pool < activationPoint example_pool"
    by (simp add: currentPoint_def world_before_def example_fee_fields)
  show ?thesis
    using getQuote_before_activation[OF acc cp, of "spec_helpers 0 100"] acc cp
      example_quote_before example_base_numerators(1)
    by (simp add: example_fee_fields)
qed

text \<open>
  C2, as stated, fails: 500 seconds before the activation point at 1000 the period is 10, not
  0, and the base numerator is 999980 where the cliff numerator of period 0 is 1000000; the
  fee charged on the gross output 999000999 is 499500499 where the cliff fee is 999000.
\<close>

theorem getPeriod_before_activation_counterexample:
  "currentPoint world_before example_pool = 500
   \<and> activationPoint example_pool = 1000
   \<and> getPeriod example_pool 500 = Inr 10
   \<and> feeNumerator (spec_helpers 0 100) (poolFees example_pool) 10 = 999980
   \<and> feeNumerator (spec_helpers 0 100) (poolFees example_pool) 0 = 1000000
   \<and> getQuote (spec_helpers 0 100) world_before quote_params
       = Inr \<lparr> actualAmount = 499500500, totalFee = 499500499 \<rparr>
   \<and> spec_calculateFee 999000999 1000000 = (998001999, 999000)"
proof -
  have cp: "currentPoint world_before example_pool = 500"
    by (simp add: currentPoint_def world_before_def example_fee_fields)
  have fee: "spec_calculateFee 999000999 1000000 = (998001999, 999000)"
    by (simp add: spec_calculateFee_def FEE_DENOMINATOR_def Let_def)
  show ?thesis
    using cp fee example_quote_before
    by (simp add: example_periods example_base_numerators example_fee_fields)
qed

subsection \<open>What a quote depends on\<close>

text \<open>
  C5, as the code has it. \<open>getQuote\<close> takes the pool's address, the input mint and the
  amount, and reads the rest itself: the pool snapshot it fetches and the current point, which
  is the wall clock in whole seconds when the pool's \<open>activationType\<close> is non-zero and the
  connection's slot otherwise. Two invocations with equal parameters that fetch the same
  snapshot and read the same second, or the same slot, return the same result.
\<close>

theorem getQuote_reads_determine_result:
  assumes "poolAccounts w1 (pool params) = poolAccounts w2 (pool params)"
    and "\<forall>poolState. poolAccounts w1 (pool params) = Some poolState \<longrightarrow>
           (if activationType poolState \<noteq> 0
            then dateNow w1 div 1000 = dateNow w2 div 1000
            else getSlot w1 = getSlot w2)"
  shows "getQuote h w1 params = getQuote h w2 params"
proof (cases "poolAccounts w1 (pool params)")
  case None
  then show ?thesis using assms(1) by (simp add: getQuote_eq)
next
  case (Some poolState)
  then have "currentPoint w1 poolState = currentPoint w2 poolState"
    using assms(2) by (auto simp: currentPoint_def split: if_splits)
  then show ?thesis using Some assms(1) by (simp add: getQuote_eq)
qed

theorem getQuote_reads_determine_result_witness:
  "poolAccounts world_before (pool quote_params) = poolAccounts world_same_second (pool quote_params)
   \<and> poolAccounts world_before (pool quote_params) = Some example_pool
   \<and> activationType example_pool \<noteq> 0
   \<and> dateNow world_before div 1000 = dateNow world_same_second div 1000
   \<and> dateNow world_before \<noteq> dateNow world_same_second
   \<and> getSlot world_before \<noteq> getSlot world_same_second
   \<and> getQuote (spec_helpers 0 100) world_before quote_params
       = getQuote (spec_helpers 0 100) world_same_second quote_params
   \<and> getQuote (spec_helpers 0 100) world_same_second quote_params
       = Inr \<lparr> actualAmount = 499500500, totalFee = 499500499 \<rparr>"
proof -
  have acc: "poolAccounts world_before (pool quote_params) = poolAccounts world_same_second (pool quote_params)"
    "poolAccounts world_before (pool quote_params) = Some example_pool"
    by (simp_all add: world_same_second_def world_before_def quote_params_def)
  have t: "activationType example_pool \<noteq> 0"
    "dateNow world_before div 1000 = dateNow world_same_second div 1000"
    by (simp_all add: world_same_second_def world_before_def example_fee_fields)
  have all: "\<forall>poolState. poolAccounts world_before (pool quote_params) = Some poolState \<longrightarrow>
           (if activationType poolState \<noteq> 0
            then dateNow world_before div 1000 = dateNow world_same_second div 1000
            else getSlot world_before = getSlot world_same_second)"
    using t acc(2) by simp
  have d: "dateNow world_before \<noteq> dateNow world_same_second"
    "getSlot world_before \<noteq> getSlot world_same_second"
    by (simp_all add: world_same_second_def world_before_def)
  have eq: "getQuote (spec_helpers 0 100) world_before quote_params
       = getQuote (spec_helpers 0 100) world_same_second quote_params"
    using getQuote_reads_determine_result[OF acc(1) all, of "spec_helpers 0 100"] .
  show ?thesis
    using eq acc t d example_quote_before by simp
qed

text \<open>
  C5, as stated, fails: on a pool without a fee schedule the same parameters and the same
  pool snapshot give a quote when the wall clock is before the activation point and a failed
  assertion (the division by the period frequency 0) when it is after.
\<close>

theorem getQuote_clock_counterexample:
  "flat_world_during = flat_world_before \<lparr> dateNow := 1055000 \<rparr>
   \<and> poolAccounts flat_world_before (pool quote_params) = Some flat_pool
   \<and> poolAccounts flat_world_during (pool quote_params) = Some flat_pool
   \<and> getQuote (spec_helpers 0 100) flat_world_before quote_params
       = Inr \<lparr> actualAmount = 499500500, totalFee = 499500499 \<rparr>
   \<and> getQuote (spec_helpers 0 100) flat_world_during quote_params = Inl AssertionFailed
   \<and> getQuote (spec_helpers 0 100) flat_world_before quote_params
       \<noteq> getQuote (spec_helpers 0 100) flat_world_during quote_params"
proof -
  have w: "flat_world_during = flat_world_before \<lparr> dateNow := 1055000 \<rparr>"
    by (simp add: flat_world_during_def)
  have acc: "poolAccounts flat_world_before (pool quote_params) = Some flat_pool"
    "poolAccounts flat_world_during (pool quote_params) = Some flat_pool"
    by (simp_all add: flat_world_during_def flat_world_before_def quote_params_def)
  have ne: "getQuote (spec_helpers 0 100) flat_world_before quote_params
       \<noteq> getQuote (spec_helpers 0 100) flat_world_during quote_params"
    by (simp only: flat_quote_before flat_quote_during) simp
  show ?thesis
    using w acc ne flat_quote_before flat_quote_during by simp
qed


section \<open>Liquidity sizing\<close>

text \<open>
  C4. \<open>getLiquidityDelta\<close> returns \<open>min(L_fromA, L_fromB)\<close> floored to the fixed-point grid,
  a liquidity that needs at most the two maximum amounts. The code returns nothing:
  on the parameters of the spec's scenario (both maxima \<open>1000 * 10^6\<close>, the price at the
  lower bound) the result is \<open>undefined\<close>.
\<close>

theorem getLiquidityDelta_undefined:
  "getLiquidityDelta
     (1000000000 :: int, 1000000000 :: int, MIN_SQRT_PRICE, MIN_SQRT_PRICE, MAX_SQRT_PRICE) = None"
  by (simp add: getLiquidityDelta_def)


end
